theory Spec2Isabelle
  imports Main "HOL-Library.Sublist" "HOL-Library.Word"
begin

section \<open>The Helios testnet automation bot (src/lol.js)\<close>

text \<open>
  The script is glue around a chain client (viem): six task functions, two sub-schedulers
  that repeat a task list a fixed number of times, and a master loop that repeats a
  session once per day. The chain client, the clock and the random sources are the
  environment; everything else is translated statement by statement.

  An asynchronous function is a function from a state to a result and a new state.
  The result is \<open>Inl e\<close> when the function throws \<open>e\<close> (its promise rejects) and
  \<open>Inr v\<close> when it returns \<open>v\<close>. The state holds the trace of what the function
  did (client calls, console lines, timer sleeps) and a counter of the questions it has
  asked the environment so far.
\<close>

subsection \<open>Values\<close>

type_synonym address = string
type_synonym hash = string
type_synonym hex = string

text \<open>
  A thrown value. The catch blocks print \<open>error?.shortMessage || error?.message || error\<close>;
  the empty string stands for a field that is absent or empty (both are falsy).
\<close>

datatype error = Error (shortMessage: string) (message: string)

datatype shown = Text string | Object error

definition error_text :: "error \<Rightarrow> shown" where
  "error_text e =
     (if shortMessage e \<noteq> [] then Text (shortMessage e)
      else if message e \<noteq> [] then Text (message e)
      else Object e)"

record receipt =
  status :: string
  blockNumber :: nat
  contractAddress :: address

text \<open>The contract interfaces are JSON literals of the source; they are kept as names.\<close>

datatype abi = counterAbi | TOKEN_DEPLOYER_ABI | ERC20_ABI | SOLARISWAP_ABI

datatype arg = Str string | Num int | Addr address | Tuple "arg list"

text \<open>
  One constructor for each client operation, holding the fields of the object literal the
  source passes: \<open>{abi, bytecode, args, gasPrice}\<close>, \<open>{address, abi, functionName, args,
  gasPrice}\<close>, \<open>{to, data, gasPrice}\<close>, \<open>{address, abi, functionName, args}\<close> and
  \<open>{hash}\<close>.
\<close>

datatype call =
    DeployContract abi hex "arg list" int
  | WriteContract address abi string "arg list" int
  | SendTransaction address hex int
  | ReadContract address abi string "arg list"
  | WaitForTransactionReceipt hash

fun gasPrice_of :: "call \<Rightarrow> int option" where
  "gasPrice_of (DeployContract a b as g) = Some g"
| "gasPrice_of (WriteContract ad a f as g) = Some g"
| "gasPrice_of (SendTransaction t d g) = Some g"
| "gasPrice_of (ReadContract ad a f as) = None"
| "gasPrice_of (WaitForTransactionReceipt h) = None"

fun submits_transaction :: "call \<Rightarrow> bool" where
  "submits_transaction (DeployContract a b as g) = True"
| "submits_transaction (WriteContract ad a f as g) = True"
| "submits_transaction (SendTransaction t d g) = True"
| "submits_transaction (ReadContract ad a f as) = False"
| "submits_transaction (WaitForTransactionReceipt h) = False"

datatype task =
    Task_deployContract
  | Task_createToken
  | Task_mintNft
  | Task_claimAndBurn
  | Task_swapTokens
  | Task_createMintpadNFT

text \<open>The value of \<open>task.name\<close>.\<close>

fun task_name :: "task \<Rightarrow> string" where
  "task_name Task_deployContract = ''task_deployContract''"
| "task_name Task_createToken = ''task_createToken''"
| "task_name Task_mintNft = ''task_mintNft''"
| "task_name Task_claimAndBurn = ''task_claimAndBurn''"
| "task_name Task_swapTokens = ''task_swapTokens''"
| "task_name Task_createMintpadNFT = ''task_createMintpadNFT''"

text \<open>
  The console lines, one constructor for each template string of the source with the
  values it interpolates. \<open>TaskBanner t\<close> is the line \<open>--- TASK k: ... ---\<close> that is
  the first statement of task \<open>t\<close>; \<open>RunningSequence k i n\<close> is the line
  \<open>[SCHEDULER k] Running ... #i of n\<close> that opens iteration \<open>i\<close>.
\<close>

datatype msg =
    TaskBanner task
  | TxHash hash
  | ContractDeployed address nat
  | ContractDeploymentFailed
  | TokenCreated nat
  | TokenCreationFailed
  | NftMinted nat
  | NftMintFailed
  | SubtaskStep nat
  | SubtaskSuccess nat
  | SubtaskFailed
  | ApprovingToken
  | ApprovalComplete
  | TokenAlreadyApproved
  | ExecutingSwap
  | SwapSuccessful nat
  | SwapFailed
  | GeneratedSalt string
  | MintpadCreated nat
  | MintpadFailed
  | SchedulerStarting nat
  | RunningSequence nat nat nat
  | WaitingBetweenTasks int
  | SequenceFinished nat int
  | WaitingForNextRun nat int int
  | SchedulerComplete nat

datatype event =
    Call call
  | Log msg
  | ErrorLog string shown
  | Sleep int

subsection \<open>The environment and the state\<close>

text \<open>
  The environment answers the \<open>k\<close>-th question of a run: what a client operation
  returns or throws, what \<open>Date.now()\<close> reads, which integer
  \<open>Math.floor(Math.random() * m)\<close> yields (\<open>random_draw\<close> modulo \<open>m\<close>: some integer
  below \<open>m\<close>), and which bytes \<open>crypto.randomBytes\<close> delivers.
\<close>

record env =
  account_address :: address
  deployContract_reply :: "nat \<Rightarrow> error + hash"
  writeContract_reply :: "nat \<Rightarrow> error + hash"
  sendTransaction_reply :: "nat \<Rightarrow> error + hash"
  readContract_reply :: "nat \<Rightarrow> error + int"
  waitForTransactionReceipt_reply :: "nat \<Rightarrow> error + receipt"
  clock :: "nat \<Rightarrow> int"
  random_draw :: "nat \<Rightarrow> nat"
  entropy :: "nat \<Rightarrow> nat \<Rightarrow> 8 word"

record st =
  tick :: nat
  trace :: "event list"

type_synonym 'a io = "st \<Rightarrow> (error + 'a) \<times> st"

definition return :: "'a \<Rightarrow> 'a io" where
  "return a s = (Inr a, s)"

definition bind :: "'a io \<Rightarrow> ('a \<Rightarrow> 'b io) \<Rightarrow> 'b io" where
  "bind m f s = (case m s of (Inl e, s') \<Rightarrow> (Inl e, s') | (Inr a, s') \<Rightarrow> f a s')"

text \<open>\<open>try { m } catch (error) { h error }\<close>\<close>

definition try_catch :: "unit io \<Rightarrow> (error \<Rightarrow> unit io) \<Rightarrow> unit io" where
  "try_catch m h s = (case m s of (Inl e, s') \<Rightarrow> h e s' | (Inr a, s') \<Rightarrow> (Inr a, s'))"

text \<open>Appending an event to the trace; this never throws.\<close>

definition emit :: "event \<Rightarrow> unit io" where
  "emit e s = (Inr (), s\<lparr>trace := trace s @ [e]\<rparr>)"

definition console_log :: "msg \<Rightarrow> unit io" where
  "console_log m = emit (Log m)"

definition console_error :: "string \<Rightarrow> shown \<Rightarrow> unit io" where
  "console_error name sh = emit (ErrorLog name sh)"

text \<open>\<open>await new Promise(resolve => setTimeout(resolve, ms))\<close>\<close>

definition sleep :: "int \<Rightarrow> unit io" where
  "sleep ms = emit (Sleep ms)"

text \<open>
  A question to the environment: the answer is that of the current tick, and the tick
  advances. A client call is recorded in the trace before its answer is known, and the
  answer is a value or a thrown error.
\<close>

definition ask :: "(nat \<Rightarrow> 'a) \<Rightarrow> 'a io" where
  "ask f s = (Inr (f (tick s)), s\<lparr>tick := Suc (tick s)\<rparr>)"

definition client_call :: "call \<Rightarrow> (nat \<Rightarrow> error + 'a) \<Rightarrow> 'a io" where
  "client_call c reply s = (reply (tick s), s\<lparr>tick := Suc (tick s), trace := trace s @ [Call c]\<rparr>)"

definition deployContract :: "env \<Rightarrow> abi \<Rightarrow> hex \<Rightarrow> arg list \<Rightarrow> int \<Rightarrow> hash io" where
  "deployContract w a b as g = client_call (DeployContract a b as g) (deployContract_reply w)"

definition writeContract :: "env \<Rightarrow> address \<Rightarrow> abi \<Rightarrow> string \<Rightarrow> arg list \<Rightarrow> int \<Rightarrow> hash io" where
  "writeContract w ad a f as g = client_call (WriteContract ad a f as g) (writeContract_reply w)"

definition sendTransaction :: "env \<Rightarrow> address \<Rightarrow> hex \<Rightarrow> int \<Rightarrow> hash io" where
  "sendTransaction w t d g = client_call (SendTransaction t d g) (sendTransaction_reply w)"

definition readContract :: "env \<Rightarrow> address \<Rightarrow> abi \<Rightarrow> string \<Rightarrow> arg list \<Rightarrow> int io" where
  "readContract w ad a f as = client_call (ReadContract ad a f as) (readContract_reply w)"

definition waitForTransactionReceipt :: "env \<Rightarrow> hash \<Rightarrow> receipt io" where
  "waitForTransactionReceipt w h =
     client_call (WaitForTransactionReceipt h) (waitForTransactionReceipt_reply w)"

definition Date_now :: "env \<Rightarrow> int io" where
  "Date_now w = ask (clock w)"

definition Math_floor_random_times :: "env \<Rightarrow> nat \<Rightarrow> nat io" where
  "Math_floor_random_times w m = ask (\<lambda>k. random_draw w k mod m)"

definition randomBytes :: "env \<Rightarrow> nat \<Rightarrow> 8 word list io" where
  "randomBytes w n = ask (\<lambda>k. map (entropy w k) [0..<n])"

subsection \<open>Strings\<close>

definition digit_char :: "nat \<Rightarrow> char" where
  "digit_char d = ''0123456789abcdef'' ! d"

text \<open>The decimal digits of a non-negative integer.\<close>

function decimal_digits :: "int \<Rightarrow> string" where
  "decimal_digits i =
     (if i < 10 then [digit_char (nat i)]
      else decimal_digits (i div 10) @ [digit_char (nat (i mod 10))])"
  by pat_completeness auto
termination
  by (relation "measure nat") auto

declare decimal_digits.simps [simp del]

text \<open>An integer in a template string or a string concatenation.\<close>

definition decimal :: "int \<Rightarrow> string" where
  "decimal i = (if i < 0 then CHR ''-'' # decimal_digits (- i) else decimal_digits i)"

definition toLowerCase :: "string \<Rightarrow> string" where
  "toLowerCase str =
     map (\<lambda>c. if 65 \<le> (of_char c :: nat) \<and> (of_char c :: nat) \<le> 90
               then char_of (of_char c + 32 :: nat) else c) str"

text \<open>\<open>Buffer.toString('hex')\<close>: two lower-case digits for each byte.\<close>

definition hex_of_byte :: "8 word \<Rightarrow> string" where
  "hex_of_byte b = [digit_char (unat b div 16), digit_char (unat b mod 16)]"

definition toString_hex :: "8 word list \<Rightarrow> string" where
  "toString_hex bs = concat (map hex_of_byte bs)"

text \<open>\<open>String.prototype.indexOf\<close>: the index of the first occurrence, or \<open>-1\<close>.\<close>

fun indexOf_at :: "nat \<Rightarrow> string \<Rightarrow> string \<Rightarrow> int" where
  "indexOf_at i [] pat = (if pat = [] then int i else - 1)"
| "indexOf_at i (c # cs) pat = (if prefix pat (c # cs) then int i else indexOf_at (Suc i) cs pat)"

definition indexOf :: "string \<Rightarrow> string \<Rightarrow> int" where
  "indexOf str pat = indexOf_at 0 str pat"

text \<open>
  \<open>String.prototype.substring(a, b)\<close>: both indices are clamped to the string and
  swapped when \<open>a > b\<close>; with one argument the end is the length.
\<close>

definition substring :: "string \<Rightarrow> int \<Rightarrow> int \<Rightarrow> string" where
  "substring str a b =
     (let n = int (length str);
          a' = max 0 (min a n);
          b' = max 0 (min b n)
      in take (nat (max a' b' - min a' b')) (drop (nat (min a' b')) str))"

definition substring_from :: "string \<Rightarrow> int \<Rightarrow> string" where
  "substring_from str a = substring str a (int (length str))"

text \<open>viem's \<open>parseUnits\<close> on an integer literal: the value shifted by the decimals.\<close>

definition parseUnits :: "int \<Rightarrow> nat \<Rightarrow> int" where
  "parseUnits v d = v * 10 ^ d"

definition maxUint256 :: int where
  "maxUint256 = 2 ^ 256 - 1"

subsection \<open>Configuration\<close>

definition MAIN_RUNS_PER_SESSION :: nat where "MAIN_RUNS_PER_SESSION = 10"
definition MAIN_INTERVAL_HOURS :: int where "MAIN_INTERVAL_HOURS = 1"
definition MAIN_INTERVAL_MINUTES :: int where "MAIN_INTERVAL_MINUTES = 5"
definition MAIN_RUN_INTERVAL_MS :: int where
  "MAIN_RUN_INTERVAL_MS = (MAIN_INTERVAL_HOURS * 60 + MAIN_INTERVAL_MINUTES) * 60 * 1000"

definition TOKEN_RUNS_PER_SESSION :: nat where "TOKEN_RUNS_PER_SESSION = 3"
definition TOKEN_INTERVAL_HOURS :: int where "TOKEN_INTERVAL_HOURS = 1"
definition TOKEN_INTERVAL_MINUTES :: int where "TOKEN_INTERVAL_MINUTES = 5"
definition TOKEN_RUN_INTERVAL_MS :: int where
  "TOKEN_RUN_INTERVAL_MS = (TOKEN_INTERVAL_HOURS * 60 + TOKEN_INTERVAL_MINUTES) * 60 * 1000"

definition DELAY_BETWEEN_TASKS_MS :: int where "DELAY_BETWEEN_TASKS_MS = 10000"

definition HIGH_GAS_PRICE :: int where "HIGH_GAS_PRICE = 200000000000"

subsection \<open>Task 1: deploy a contract\<close>

definition counterBytecode :: hex where
  "counterBytecode = ''0x608060405234801561001057600080fd5b50610100806100206000396000f3fe6080604052348015600f57600080fd5b506004361060325760003560e01c806360fe47b11460375780638381f58a146059575b600080fd5b605760048036038101906053565b6076565b005b605f607e565b604051606c9190608d565b60405180910390f35b60008054905090565b60005481565b600080546001019055565b608791905b80821115609d576000818152602081019051609392919160010160a3565b505050565b60006020828403121560b457600080fd5b503591905056fea2646970667358221220a2e51921201a9160358e2d46e279a1f7344b5fb227f722955f240214a1c09b3064736f6c63430008090033''"

definition task_deployContract :: "env \<Rightarrow> unit io" where
  "task_deployContract w =
     bind (console_log (TaskBanner Task_deployContract)) (\<lambda>_.
     bind (deployContract w counterAbi counterBytecode [] HIGH_GAS_PRICE) (\<lambda>hash.
     bind (console_log (TxHash hash)) (\<lambda>_.
     bind (waitForTransactionReceipt w hash) (\<lambda>receipt.
     if status receipt = ''success''
     then console_log (ContractDeployed (contractAddress receipt) (blockNumber receipt))
     else console_log ContractDeploymentFailed))))"

subsection \<open>Task 2: create a token\<close>

definition TOKEN_DEPLOYER_ADDRESS :: address where
  "TOKEN_DEPLOYER_ADDRESS = ''0x0000000000000000000000000000000000000806''"

definition task_createToken :: "env \<Rightarrow> unit io" where
  "task_createToken w =
     bind (console_log (TaskBanner Task_createToken)) (\<lambda>_.
     bind (Math_floor_random_times w 10000) (\<lambda>r1.
     bind (Math_floor_random_times w 1000) (\<lambda>r2.
     bind (Date_now w) (\<lambda>now.
     let name = ''AutoToken'' @ decimal (int r1);
         symbol = ''ATK'' @ decimal (int r2);
         denom = ''a'' @ toLowerCase symbol @ ''-'' @ decimal now;
         totalSupply = parseUnits 1000000 18
     in
     bind (writeContract w TOKEN_DEPLOYER_ADDRESS TOKEN_DEPLOYER_ABI ''createErc20''
             [Str name, Str symbol, Str denom, Num totalSupply, Num 18, Str '''']
             HIGH_GAS_PRICE) (\<lambda>hash.
     bind (console_log (TxHash hash)) (\<lambda>_.
     bind (waitForTransactionReceipt w hash) (\<lambda>receipt.
     console_log (if status receipt = ''success''
                  then TokenCreated (blockNumber receipt) else TokenCreationFailed))))))))"

subsection \<open>Task 3: mint an NFT\<close>

definition NFT_CONTRACT_ADDRESS :: address where
  "NFT_CONTRACT_ADDRESS = ''0x9b0C569E2F63CEC5066f9f13C78bA0C6777322aa''"

definition NFT_MINT_DATA :: hex where
  "NFT_MINT_DATA = ''0x57bc3d7800000000000000000000000081860e8fec3115e6809be409cf5059a91b7be83e00000000000000000000000000000000000000000000000000000000000000000000000000000000000000000000000000000000000000000000000000000001000000000000000000000000eeeeeeeeeeeeeeeeeeeeeeeeeeeeeeeeeeeeeeee000000000000000000000000000000000000000000000000000000000000000000000000000000000000000000000000000000000000000000000000000000e0000000000000000000000000000000000000000000000000000000000000018000000000000000000000000000000000000000000000000000000000000000800000000000000000000000000000000000000000000000000000000000000000ffffffffffffffffffffffffffffffffffffffffffffffffffffffffffffffff000000000000000000000000000000000000000000000000000000000000000000000000000000000000000000000000000000000000000000000000000000000000000000000000000000000000000000000000000000000000000000000000''"

definition task_mintNft :: "env \<Rightarrow> unit io" where
  "task_mintNft w =
     bind (console_log (TaskBanner Task_mintNft)) (\<lambda>_.
     bind (sendTransaction w NFT_CONTRACT_ADDRESS NFT_MINT_DATA HIGH_GAS_PRICE) (\<lambda>hash.
     bind (console_log (TxHash hash)) (\<lambda>_.
     bind (waitForTransactionReceipt w hash) (\<lambda>receipt.
     console_log (if status receipt = ''success''
                  then NftMinted (blockNumber receipt) else NftMintFailed)))))"

subsection \<open>Task 4: claim and burn\<close>

definition sendSubtask :: "env \<Rightarrow> address \<Rightarrow> hex \<Rightarrow> unit io" where
  "sendSubtask w to data =
     bind (sendTransaction w to data HIGH_GAS_PRICE) (\<lambda>hash.
     bind (waitForTransactionReceipt w hash) (\<lambda>receipt.
     console_log (if status receipt = ''success''
                  then SubtaskSuccess (blockNumber receipt) else SubtaskFailed)))"

definition DELAY_BETWEEN_SUBTASKS_MS :: int where "DELAY_BETWEEN_SUBTASKS_MS = 5000"

definition task_claimAndBurn :: "env \<Rightarrow> unit io" where
  "task_claimAndBurn w =
     bind (console_log (TaskBanner Task_claimAndBurn)) (\<lambda>_.
     bind (console_log (SubtaskStep 1)) (\<lambda>_.
     bind (sendSubtask w ''0x0B1Bb8520a3443b43FA66B123f6C69aEBa41e7Cc'' ''0x4e71d92d'') (\<lambda>_.
     bind (sleep DELAY_BETWEEN_SUBTASKS_MS) (\<lambda>_.
     bind (console_log (SubtaskStep 2)) (\<lambda>_.
     bind (sendSubtask w ''0xEb3D9727D5bcAf5F792FA2eCFF73f6A9448c036B''
             ''0x1e83409a000000000000000000000000c36e9b957e218cda978bd1b95745f15d8cedb3c4'') (\<lambda>_.
     bind (sleep DELAY_BETWEEN_SUBTASKS_MS) (\<lambda>_.
     bind (console_log (SubtaskStep 3)) (\<lambda>_.
     bind (sendSubtask w ''0xC36e9B957E218cDa978bd1B95745f15d8CEDb3C4''
             ''0x095ea7b3000000000000000000000000eb3d9727d5bcaf5f792fa2ecff73f6a9448c036b0000000000000000000000000000000000000000000000000de0b6b3a7640000'') (\<lambda>_.
     bind (sleep DELAY_BETWEEN_SUBTASKS_MS) (\<lambda>_.
     bind (console_log (SubtaskStep 4)) (\<lambda>_.
     sendSubtask w ''0xEb3D9727D5bcAf5F792FA2eCFF73f6A9448c036B''
       ''0xf4ec95d5000000000000000000000000c36e9b957e218cda978bd1b95745f15d8cedb3c40000000000000000000000000000000000000000000000000de0b6b3a7640000'')))))))))))"

subsection \<open>Task 5: swap tokens\<close>

definition SWAP_ROUTER_ADDRESS :: address where
  "SWAP_ROUTER_ADDRESS = ''0x512320fC42aCFAdc0f6aDA03626a76eD726fDA63''"

definition HLS_TOKEN_ADDRESS :: address where
  "HLS_TOKEN_ADDRESS = ''0xD4949664cD82660AaE99bEdc034a0deA8A0bd517''"

definition WETH_TOKEN_ADDRESS :: address where
  "WETH_TOKEN_ADDRESS = ''0x80b5a32E4F032B2a058b4F29EC95EEfEEB87aDcd''"

definition amountInWei :: int where
  "amountInWei = parseUnits 1 18"

text \<open>The approval transaction of the task, as the client receives it.\<close>

definition approve_call :: call where
  "approve_call =
     WriteContract HLS_TOKEN_ADDRESS ERC20_ABI ''approve''
       [Addr SWAP_ROUTER_ADDRESS, Num maxUint256] HIGH_GAS_PRICE"

text \<open>
  \<open>swapParams\<close>, the fields in the order of the object literal: tokenIn, tokenOut, fee,
  recipient, deadline, amountIn, amountOutMinimum, sqrtPriceLimitX96.
\<close>

definition swapParams :: "env \<Rightarrow> int \<Rightarrow> arg" where
  "swapParams w deadline =
     Tuple [Addr HLS_TOKEN_ADDRESS, Addr WETH_TOKEN_ADDRESS, Num 3000, Addr (account_address w),
            Num deadline, Num amountInWei, Num 0, Num 0]"

definition swap_call :: "env \<Rightarrow> int \<Rightarrow> call" where
  "swap_call w deadline =
     WriteContract SWAP_ROUTER_ADDRESS SOLARISWAP_ABI ''exactInputSingle''
       [swapParams w deadline] HIGH_GAS_PRICE"

definition task_swapTokens :: "env \<Rightarrow> unit io" where
  "task_swapTokens w =
     bind (console_log (TaskBanner Task_swapTokens)) (\<lambda>_.
     bind (readContract w HLS_TOKEN_ADDRESS ERC20_ABI ''allowance''
             [Addr (account_address w), Addr SWAP_ROUTER_ADDRESS]) (\<lambda>allowance.
     bind (if allowance < amountInWei
           then bind (console_log ApprovingToken) (\<lambda>_.
                bind (writeContract w HLS_TOKEN_ADDRESS ERC20_ABI ''approve''
                        [Addr SWAP_ROUTER_ADDRESS, Num maxUint256] HIGH_GAS_PRICE) (\<lambda>approveHash.
                bind (waitForTransactionReceipt w approveHash) (\<lambda>_.
                console_log ApprovalComplete)))
           else console_log TokenAlreadyApproved) (\<lambda>_.
     bind (console_log ExecutingSwap) (\<lambda>_.
     bind (Date_now w) (\<lambda>now.
     let deadline = now div 1000 + 600 in
     bind (writeContract w SWAP_ROUTER_ADDRESS SOLARISWAP_ABI ''exactInputSingle''
             [swapParams w deadline] HIGH_GAS_PRICE) (\<lambda>swapHash.
     bind (waitForTransactionReceipt w swapHash) (\<lambda>receipt.
     console_log (if status receipt = ''success''
                  then SwapSuccessful (blockNumber receipt) else SwapFailed))))))))"

subsection \<open>Task 6: create a Mintpad NFT\<close>

definition MINTPAD_CONTRACT_ADDRESS :: address where
  "MINTPAD_CONTRACT_ADDRESS = ''0xaaae0243007AA3000000d8e8bEeF0a944A0d3900''"

definition TEMPLATE_DATA :: hex where
  "TEMPLATE_DATA = ''0x00000000000000000000000000000000000000000000000000000000000000000000006081860e8fec3115e6809be409cf5059a91b7be83ebbda4e0bb46bd9a50509b579000000000000000000000000000000000000000000000000000000000099000000000000000000000000000000000000000000000000000000000000000002440000000100000000000000000000000000000000000000000000000000000000000000c00000000000000000000000000000000000000000000000000000000000000100000000000000000000000000000000000000000000000000000000018cf78900000000000000000000000000000000000000000000000000000000000000000000000018000402ee0000000081860e8fec3115e6809be409cf5059a91b7be83e0000000000000000000000000000000000000000000000000000000000000140000000000000000000000000000000000000000000000000000000000000000561776461770000000000000000000000000000000000000000000000000000000000000000000000000000000000000000000000000000000000000000000003415744000000000000000000000000000000000000000000000000000000000000000000000000000000000000000000000000000000000000000000000000e0g0000000000000000000000000000000000000000000000000000000000000060000000000000000000000000000000000000000000000000000000000000008000000000000000000000000000000000000000000000000000000000000000c00000000000000000000000000000000000000000000000000000000000000000000000000000000000000000000000000000000000000000000000000000000868747470733a2f2f000000000000000000000000000000000000000000000000000000000000000000000000000000000000000000000000000000000000000000000000000000000000000000000000000000000000000000000000''"

definition YOUR_ADDRESS_IN_DATA :: string where
  "YOUR_ADDRESS_IN_DATA = ''81860e8fec3115e6809be409cf5059a91b7be83e''"

definition saltStartIndex :: int where
  "saltStartIndex = indexOf TEMPLATE_DATA YOUR_ADDRESS_IN_DATA + int (length YOUR_ADDRESS_IN_DATA)"

definition saltEndIndex :: int where
  "saltEndIndex = saltStartIndex + 64"

text \<open>The payload rebuilt around the salt (the constant \<open>data\<close> of the task).\<close>

definition mintpad_data :: "string \<Rightarrow> hex" where
  "mintpad_data newSalt =
     substring TEMPLATE_DATA 0 saltStartIndex @ newSalt @ substring_from TEMPLATE_DATA saltEndIndex"

definition task_createMintpadNFT :: "env \<Rightarrow> unit io" where
  "task_createMintpadNFT w =
     bind (console_log (TaskBanner Task_createMintpadNFT)) (\<lambda>_.
     bind (randomBytes w 32) (\<lambda>bytes.
     let newSalt = toString_hex bytes;
         data = mintpad_data newSalt
     in
     bind (console_log (GeneratedSalt (substring newSalt 0 10))) (\<lambda>_.
     bind (sendTransaction w MINTPAD_CONTRACT_ADDRESS data HIGH_GAS_PRICE) (\<lambda>hash.
     bind (console_log (TxHash hash)) (\<lambda>_.
     bind (waitForTransactionReceipt w hash) (\<lambda>receipt.
     console_log (if status receipt = ''success''
                  then MintpadCreated (blockNumber receipt) else MintpadFailed)))))))"

subsection \<open>The sub-schedulers\<close>

fun run_task :: "task \<Rightarrow> env \<Rightarrow> unit io" where
  "run_task Task_deployContract = task_deployContract"
| "run_task Task_createToken = task_createToken"
| "run_task Task_mintNft = task_mintNft"
| "run_task Task_claimAndBurn = task_claimAndBurn"
| "run_task Task_swapTokens = task_swapTokens"
| "run_task Task_createMintpadNFT = task_createMintpadNFT"

text \<open>The list \<open>tasks\<close> of \<open>runMainTasks\<close>.\<close>

definition tasks :: "task list" where
  "tasks = [Task_deployContract, Task_mintNft, Task_claimAndBurn, Task_swapTokens,
            Task_createMintpadNFT]"

text \<open>\<open>try { await task(); } catch (error) { console.error(...) }\<close>\<close>

definition guarded :: "env \<Rightarrow> task \<Rightarrow> unit io" where
  "guarded w t =
     try_catch (run_task t w) (\<lambda>error. console_error (task_name t) (error_text error))"

text \<open>The inner loop \<open>for (const task of tasks)\<close>.\<close>

fun for_each_task :: "env \<Rightarrow> task list \<Rightarrow> unit io" where
  "for_each_task w [] = return ()"
| "for_each_task w (t # ts) =
     bind (guarded w t) (\<lambda>_.
     bind (console_log (WaitingBetweenTasks (DELAY_BETWEEN_TASKS_MS div 1000))) (\<lambda>_.
     bind (sleep DELAY_BETWEEN_TASKS_MS) (\<lambda>_.
     for_each_task w ts)))"

text \<open>
  The loop \<open>for (let i = 1; i <= MAIN_RUNS_PER_SESSION; i++)\<close>, with the bound as the
  parameter \<open>n\<close>.
\<close>

function main_sequences :: "env \<Rightarrow> nat \<Rightarrow> nat \<Rightarrow> unit io" where
  "main_sequences w n i =
     (if i \<le> n then
        bind (console_log (RunningSequence 1 i n)) (\<lambda>_.
        bind (Date_now w) (\<lambda>sequenceStartTime.
        bind (for_each_task w tasks) (\<lambda>_.
        bind (Date_now w) (\<lambda>sequenceEndTime.
        bind (console_log (SequenceFinished i (sequenceEndTime - sequenceStartTime))) (\<lambda>_.
        bind (if i < n
              then bind (console_log (WaitingForNextRun 1 MAIN_INTERVAL_HOURS MAIN_INTERVAL_MINUTES))
                     (\<lambda>_. sleep MAIN_RUN_INTERVAL_MS)
              else return ()) (\<lambda>_.
        main_sequences w n (Suc i)))))))
      else return ())"
  by pat_completeness auto
termination
  by (relation "measure (\<lambda>(w, n, i). Suc n - i)") auto

declare main_sequences.simps [simp del]

definition runMainTasks :: "env \<Rightarrow> unit io" where
  "runMainTasks w =
     bind (console_log (SchedulerStarting 1)) (\<lambda>_.
     bind (main_sequences w MAIN_RUNS_PER_SESSION 1) (\<lambda>_.
     console_log (SchedulerComplete 1)))"

text \<open>The loop \<open>for (let i = 1; i <= TOKEN_RUNS_PER_SESSION; i++)\<close>.\<close>

function token_deploys :: "env \<Rightarrow> nat \<Rightarrow> nat \<Rightarrow> unit io" where
  "token_deploys w n i =
     (if i \<le> n then
        bind (console_log (RunningSequence 2 i n)) (\<lambda>_.
        bind (guarded w Task_createToken) (\<lambda>_.
        bind (if i < n
              then bind (console_log (WaitingForNextRun 2 TOKEN_INTERVAL_HOURS TOKEN_INTERVAL_MINUTES))
                     (\<lambda>_. sleep TOKEN_RUN_INTERVAL_MS)
              else return ()) (\<lambda>_.
        token_deploys w n (Suc i))))
      else return ())"
  by pat_completeness auto
termination
  by (relation "measure (\<lambda>(w, n, i). Suc n - i)") auto

declare token_deploys.simps [simp del]

definition runTokenDeploy :: "env \<Rightarrow> unit io" where
  "runTokenDeploy w =
     bind (console_log (SchedulerStarting 2)) (\<lambda>_.
     bind (token_deploys w TOKEN_RUNS_PER_SESSION 1) (\<lambda>_.
     console_log (SchedulerComplete 2)))"


subsection \<open>Dates\<close>

text \<open>
  A \<open>Date\<close> holds a time value: milliseconds since the epoch, UTC. \<open>getDate\<close> and
  \<open>setDate\<close> work on the local calendar, so they depend on the time zone of the
  process. The functions below are those of the ECMAScript specification (section
  "Date Objects"); \<open>TimeClip\<close> is left out, since a session start is a present-day
  clock reading, far from the range limit of \<open>8.64e15\<close> ms.
\<close>

definition msPerDay :: int where "msPerDay = 86400000"

definition Day :: "int \<Rightarrow> int" where
  "Day t = t div msPerDay"

definition TimeWithinDay :: "int \<Rightarrow> int" where
  "TimeWithinDay t = t mod msPerDay"

definition DaysInYear :: "int \<Rightarrow> int" where
  "DaysInYear y =
     (if y mod 4 \<noteq> 0 then 365 else if y mod 100 \<noteq> 0 then 366
      else if y mod 400 \<noteq> 0 then 365 else 366)"

definition DayFromYear :: "int \<Rightarrow> int" where
  "DayFromYear y =
     365 * (y - 1970) + (y - 1969) div 4 - (y - 1901) div 100 + (y - 1601) div 400"

lemma DayFromYear_less: "DayFromYear y < DayFromYear (y + 1)"
proof -
  have "(y - 1969) div 4 \<le> (y - 1968) div 4"
    by (rule zdiv_mono1) simp_all
  moreover have "(y - 1900) div 100 \<le> (y - 1901) div 100 + 1"
    by linarith
  moreover have "(y - 1601) div 400 \<le> (y - 1600) div 400"
    by (rule zdiv_mono1) simp_all
  ultimately show ?thesis
    by (simp add: DayFromYear_def algebra_simps)
qed

text \<open>
  \<open>YearFromTime t\<close> is the largest \<open>y\<close> with \<open>TimeFromYear y \<le> t\<close>: the search
  climbs from an estimate while the next year has begun, then descends while the year
  has not begun.
\<close>

function year_up :: "int \<Rightarrow> int \<Rightarrow> int" where
  "year_up d y = (if DayFromYear (y + 1) \<le> d then year_up d (y + 1) else y)"
  by pat_completeness auto
termination
proof (relation "measure (\<lambda>(d, y). nat (d + 1 - DayFromYear (y + 1)))")
  show "wf (measure (\<lambda>(d, y). nat (d + 1 - DayFromYear (y + 1))))" by simp
next
  fix d y :: int
  assume "DayFromYear (y + 1) \<le> d"
  then show "((d, y + 1), (d, y)) \<in> measure (\<lambda>(d, y). nat (d + 1 - DayFromYear (y + 1)))"
    using DayFromYear_less [of "y + 1"] by simp
qed

function year_down :: "int \<Rightarrow> int \<Rightarrow> int" where
  "year_down d y = (if d < DayFromYear y then year_down d (y - 1) else y)"
  by pat_completeness auto
termination
proof (relation "measure (\<lambda>(d, y). nat (DayFromYear y - d))")
  show "wf (measure (\<lambda>(d, y). nat (DayFromYear y - d)))" by simp
next
  fix d y :: int
  assume "d < DayFromYear y"
  then show "((d, y - 1), (d, y)) \<in> measure (\<lambda>(d, y). nat (DayFromYear y - d))"
    using DayFromYear_less [of "y - 1"] by simp
qed

declare year_up.simps [simp del] year_down.simps [simp del]

definition YearFromTime :: "int \<Rightarrow> int" where
  "YearFromTime t = year_down (Day t) (year_up (Day t) (1970 + Day t div 366))"

definition DayWithinYear :: "int \<Rightarrow> int" where
  "DayWithinYear t = Day t - DayFromYear (YearFromTime t)"

definition InLeapYear :: "int \<Rightarrow> int" where
  "InLeapYear t = (if DaysInYear (YearFromTime t) = 366 then 1 else 0)"

text \<open>The day of the year on which month \<open>m\<close> (0 to 11) begins.\<close>

definition month_start :: "int \<Rightarrow> int \<Rightarrow> int" where
  "month_start m leap =
     (if m = 0 then 0 else if m = 1 then 31 else if m = 2 then 59 + leap
      else if m = 3 then 90 + leap else if m = 4 then 120 + leap
      else if m = 5 then 151 + leap else if m = 6 then 181 + leap
      else if m = 7 then 212 + leap else if m = 8 then 243 + leap
      else if m = 9 then 273 + leap else if m = 10 then 304 + leap
      else 334 + leap)"

definition MonthFromTime :: "int \<Rightarrow> int" where
  "MonthFromTime t =
     (let d = DayWithinYear t; leap = InLeapYear t in
      if d < 31 then 0 else if d < 59 + leap then 1 else if d < 90 + leap then 2
      else if d < 120 + leap then 3 else if d < 151 + leap then 4
      else if d < 181 + leap then 5 else if d < 212 + leap then 6
      else if d < 243 + leap then 7 else if d < 273 + leap then 8
      else if d < 304 + leap then 9 else if d < 334 + leap then 10 else 11)"

definition DateFromTime :: "int \<Rightarrow> int" where
  "DateFromTime t = DayWithinYear t - month_start (MonthFromTime t) (InLeapYear t) + 1"

text \<open>
  \<open>MakeDay year month date\<close>: the day number of the first of the month (months beyond
  0 to 11 carry into the year) plus \<open>date - 1\<close>.
\<close>

definition MakeDay :: "int \<Rightarrow> int \<Rightarrow> int \<Rightarrow> int" where
  "MakeDay year month date =
     (let ym = year + month div 12; mn = month mod 12 in
      DayFromYear ym + month_start mn (if DaysInYear ym = 366 then 1 else 0) + date - 1)"

definition MakeDate :: "int \<Rightarrow> int \<Rightarrow> int" where
  "MakeDate day time = day * msPerDay + time"

text \<open>
  The time zone of the process: the offset from UTC, in milliseconds, in force at a UTC
  time value, and the offset by which a local time value is read back
  (\<open>LocalTime t = t + offset\<close>, \<open>UTC t = t - offset\<close>).
\<close>

record tz =
  utc_offset :: "int \<Rightarrow> int"
  local_offset :: "int \<Rightarrow> int"

definition LocalTime :: "tz \<Rightarrow> int \<Rightarrow> int" where
  "LocalTime z t = t + utc_offset z t"

definition UTC :: "tz \<Rightarrow> int \<Rightarrow> int" where
  "UTC z t = t - local_offset z t"

definition getDate :: "tz \<Rightarrow> int \<Rightarrow> int" where
  "getDate z t = DateFromTime (LocalTime z t)"

definition setDate :: "tz \<Rightarrow> int \<Rightarrow> int \<Rightarrow> int" where
  "setDate z t dt =
     (let t' = LocalTime z t;
          newDate = MakeDate (MakeDay (YearFromTime t') (MonthFromTime t') dt) (TimeWithinDay t')
      in UTC z newDate)"

subsection \<open>The master scheduler\<close>

text \<open>
  \<open>const nextSessionTime = new Date(sessionStartTime.getTime());
  nextSessionTime.setDate(nextSessionTime.getDate() + 1);\<close>
\<close>

definition nextSessionTime :: "tz \<Rightarrow> int \<Rightarrow> int" where
  "nextSessionTime z sessionStartTime = setDate z sessionStartTime (getDate z sessionStartTime + 1)"

text \<open>\<open>const waitTime = nextSessionTime.getTime() - Date.now();\<close>\<close>

definition waitTime :: "tz \<Rightarrow> int \<Rightarrow> int \<Rightarrow> int" where
  "waitTime z sessionStartTime now = nextSessionTime z sessionStartTime - now"

text \<open>The remainder operator \<open>%\<close>: the result has the sign of the dividend.\<close>

definition js_rem :: "int \<Rightarrow> int \<Rightarrow> int" where
  "js_rem a b = sgn a * (\<bar>a\<bar> mod \<bar>b\<bar>)"

text \<open>
  What the master loop is given: the time zone, the clock reading at the start of the
  \<open>k\<close>-th session (\<open>new Date()\<close>) and after it (\<open>Date.now()\<close>), and the environment
  each sub-scheduler meets in that session.
\<close>

record world =
  zone :: tz
  account :: address
  session_start :: "nat \<Rightarrow> int"
  session_end :: "nat \<Rightarrow> int"
  main_env :: "nat \<Rightarrow> env"
  token_env :: "nat \<Rightarrow> env"

text \<open>
  The two sub-schedulers of a session run concurrently, each on its own trace;
  \<open>Sessions a b\<close> holds both traces.
\<close>

datatype master_event =
    BotStart address
  | StartingSession int
  | Sessions "event list" "event list"
  | SessionComplete
  | NextSessionAt int
  | WaitingApproximately int int
  | MasterSleep int

definition initial :: st where
  "initial = \<lparr>tick = 0, trace = []\<rparr>"

text \<open>
  \<open>await Promise.all([p, q])\<close> once both promises have settled: it throws when one of
  them rejected and returns otherwise.
\<close>

definition Promise_all :: "error + unit \<Rightarrow> error + unit \<Rightarrow> error + unit" where
  "Promise_all p q =
     (case p of Inl e \<Rightarrow> Inl e | Inr _ \<Rightarrow> (case q of Inl e \<Rightarrow> Inl e | Inr _ \<Rightarrow> Inr ()))"

text \<open>The body of \<open>while (true)\<close>, for the \<open>k\<close>-th session.\<close>

definition daily_session ::
  "world \<Rightarrow> nat \<Rightarrow> master_event list \<Rightarrow> (error + unit) \<times> master_event list" where
  "daily_session W k log =
     (let sessionStartTime = session_start W k;
          main = runMainTasks (main_env W k) initial;
          token = runTokenDeploy (token_env W k) initial;
          log' = log @ [StartingSession sessionStartTime,
                        Sessions (trace (snd main)) (trace (snd token))]
      in case Promise_all (fst main) (fst token) of
           Inl e \<Rightarrow> (Inl e, log')
         | Inr _ \<Rightarrow>
             (let now = session_end W k;
                  next = nextSessionTime (zone W) sessionStartTime;
                  wait = waitTime (zone W) sessionStartTime now;
                  waitHours = wait div 3600000;
                  waitMinutes = js_rem wait 3600000 div 60000
              in (Inr (), log' @ [SessionComplete, NextSessionAt next,
                                  WaitingApproximately waitHours waitMinutes,
                                  MasterSleep wait])))"

text \<open>
  \<open>while (true) { body }\<close>: the loop has no \<open>break\<close> and no \<open>return\<close>; it ends only
  when its body throws, and then the promise of the function rejects with the error.
  \<open>None\<close> is a loop that never ends. The body is given the number of the iteration.
\<close>

partial_function (option) while_true ::
  "(nat \<Rightarrow> master_event list \<Rightarrow> (error + unit) \<times> master_event list) \<Rightarrow>
   nat \<Rightarrow> master_event list \<Rightarrow> (error \<times> master_event list) option" where
  "while_true body k log =
     (case body k log of
        (Inl e, log') \<Rightarrow> Some (e, log')
      | (Inr _, log') \<Rightarrow> while_true body (Suc k) log')"

declare while_true.simps [code]

text \<open>
  The same loop, watched for at most \<open>n\<close> iterations: by then it has ended with an error,
  or it is entering its next iteration with the log so far.
\<close>

datatype loop_state = Rejected error "master_event list" | Entering nat "master_event list"

fun while_true_for ::
  "nat \<Rightarrow> (nat \<Rightarrow> master_event list \<Rightarrow> (error + unit) \<times> master_event list) \<Rightarrow>
   nat \<Rightarrow> master_event list \<Rightarrow> loop_state" where
  "while_true_for 0 body k log = Entering k log"
| "while_true_for (Suc n) body k log =
     (case body k log of
        (Inl e, log') \<Rightarrow> Rejected e log'
      | (Inr _, log') \<Rightarrow> while_true_for n body (Suc k) log')"

text \<open>
  \<open>scheduleDailyRuns\<close>: the start banner, then the loop from session 0; and the same,
  watched for \<open>n\<close> iterations.
\<close>

definition scheduleDailyRuns :: "world \<Rightarrow> (error \<times> master_event list) option" where
  "scheduleDailyRuns W = while_true (daily_session W) 0 [BotStart (account W)]"

definition scheduleDailyRuns_for :: "nat \<Rightarrow> world \<Rightarrow> loop_state" where
  "scheduleDailyRuns_for n W = while_true_for n (daily_session W) 0 [BotStart (account W)]"


section \<open>Observations, relations between runs and test environments\<close>

subsection \<open>Reading a trace\<close>

text \<open>
  \<open>observe f\<close> reads a trace through \<open>f\<close>: the events \<open>f\<close> maps to \<open>None\<close> are
  dropped, the others are kept as \<open>f\<close> shows them.
\<close>

primrec observe :: "(event \<Rightarrow> 'a option) \<Rightarrow> event list \<Rightarrow> 'a list" where
  "observe f [] = []"
| "observe f (e # es) = (case f e of None \<Rightarrow> observe f es | Some a \<Rightarrow> a # observe f es)"

text \<open>An operation that only appends to the trace, and only events that satisfy \<open>P\<close>.\<close>

definition emits_only :: "(event \<Rightarrow> bool) \<Rightarrow> 'a io \<Rightarrow> bool" where
  "emits_only P m = (\<forall>s. \<exists>es. trace (snd (m s)) = trace s @ es \<and> list_all P es)"

text \<open>The console lines of the sub-schedulers and the banner of a task.\<close>

fun scheduler_line :: "msg \<Rightarrow> bool" where
  "scheduler_line (TaskBanner t) = True"
| "scheduler_line (SchedulerStarting k) = True"
| "scheduler_line (RunningSequence k i n) = True"
| "scheduler_line (WaitingBetweenTasks d) = True"
| "scheduler_line (SequenceFinished i d) = True"
| "scheduler_line (WaitingForNextRun k h m) = True"
| "scheduler_line (SchedulerComplete k) = True"
| "scheduler_line m = False"

text \<open>
  The events of a guarded task after its banner: client calls that carry the fixed gas
  price exactly when they submit a transaction, the task's own console lines, the
  error line of the catch block and the pause between two sub-steps.
\<close>

fun task_event :: "event \<Rightarrow> bool" where
  "task_event (Call c) =
     (gasPrice_of c = (if submits_transaction c then Some HIGH_GAS_PRICE else None))"
| "task_event (Log m) = (\<not> scheduler_line m)"
| "task_event (ErrorLog name e) = True"
| "task_event (Sleep ms) = (ms = DELAY_BETWEEN_SUBTASKS_MS)"

subsection \<open>The events of one iteration\<close>

text \<open>What the inner loop writes around one task, apart from the task's own events.\<close>

definition task_slot :: "task \<Rightarrow> event list" where
  "task_slot t =
     [Log (TaskBanner t), Log (WaitingBetweenTasks (DELAY_BETWEEN_TASKS_MS div 1000)),
      Sleep DELAY_BETWEEN_TASKS_MS]"

text \<open>
  What iteration \<open>i\<close> of \<open>n\<close> writes in \<open>runMainTasks\<close> and in \<open>runTokenDeploy\<close>, apart
  from the events of the tasks themselves and the line with the elapsed time.
\<close>

definition main_run :: "nat \<Rightarrow> nat \<Rightarrow> event list" where
  "main_run n i =
     Log (RunningSequence 1 i n) # concat (map task_slot tasks) @
     (if i < n
      then [Log (WaitingForNextRun 1 MAIN_INTERVAL_HOURS MAIN_INTERVAL_MINUTES),
            Sleep MAIN_RUN_INTERVAL_MS]
      else [])"

definition token_run :: "nat \<Rightarrow> nat \<Rightarrow> event list" where
  "token_run n i =
     [Log (RunningSequence 2 i n), Log (TaskBanner Task_createToken)] @
     (if i < n
      then [Log (WaitingForNextRun 2 TOKEN_INTERVAL_HOURS TOKEN_INTERVAL_MINUTES),
            Sleep TOKEN_RUN_INTERVAL_MS]
      else [])"

text \<open>
  The outline of a sub-scheduler's run: iteration \<open>i\<close> opens, a task starts (its first
  statement prints its banner), the loop sleeps for the interval between two iterations.
\<close>

datatype outline = Run nat | Started task | Pause

text \<open>The schedule: which iteration opens and which task starts.\<close>

fun schedule_view :: "event \<Rightarrow> outline option" where
  "schedule_view (Log (TaskBanner t)) = Some (Started t)"
| "schedule_view (Log (RunningSequence k i n)) = Some (Run i)"
| "schedule_view e = None"

text \<open>The pace: which iteration opens and where the loop sleeps for \<open>interval\<close>.\<close>

fun pace :: "int \<Rightarrow> event \<Rightarrow> outline option" where
  "pace interval (Log (RunningSequence k i n)) = Some (Run i)"
| "pace interval (Sleep ms) = (if ms = interval then Some Pause else None)"
| "pace interval e = None"

subsection \<open>The runs of a sub-scheduler, event by event\<close>

text \<open>What follows the tasks of iteration \<open>i\<close> of \<open>n\<close>: the interval sleep, or nothing.\<close>

definition main_pause :: "nat \<Rightarrow> nat \<Rightarrow> event list" where
  "main_pause n i =
     (if i < n
      then [Log (WaitingForNextRun 1 MAIN_INTERVAL_HOURS MAIN_INTERVAL_MINUTES),
            Sleep MAIN_RUN_INTERVAL_MS]
      else [])"

definition token_pause :: "nat \<Rightarrow> nat \<Rightarrow> event list" where
  "token_pause n i =
     (if i < n
      then [Log (WaitingForNextRun 2 TOKEN_INTERVAL_HOURS TOKEN_INTERVAL_MINUTES),
            Sleep TOKEN_RUN_INTERVAL_MS]
      else [])"

text \<open>
  The events of one run of the main sequence, after its header: no header and no
  interval sleep among them, every task of the list started, in order, and the line that
  reports the end of the sequence last.
\<close>

definition main_body :: "nat \<Rightarrow> event list \<Rightarrow> bool" where
  "main_body i b =
     (list_all (\<lambda>e. pace MAIN_RUN_INTERVAL_MS e = None) b
      \<and> observe schedule_view b = map Started tasks
      \<and> (case rev b of Log (SequenceFinished j d) # es \<Rightarrow> j = i | _ \<Rightarrow> False))"

text \<open>
  The events of one run of the token deployment, after its header: no header and no
  interval sleep among them, and the one task started.
\<close>

definition token_body :: "event list \<Rightarrow> bool" where
  "token_body b =
     (list_all (\<lambda>e. pace TOKEN_RUN_INTERVAL_MS e = None) b
      \<and> observe schedule_view b = [Started Task_createToken])"

subsection \<open>Test environments\<close>

text \<open>A client whose every operation succeeds, and one whose every operation throws.\<close>

definition mock_receipt :: receipt where
  "mock_receipt = \<lparr>status = ''success'', blockNumber = 7, contractAddress = ''0xc0''\<rparr>"

definition mock_env :: env where
  "mock_env =
     \<lparr>account_address = ''0xacc0'',
      deployContract_reply = (\<lambda>k. Inr ''0xd0''),
      writeContract_reply = (\<lambda>k. Inr ''0xe0''),
      sendTransaction_reply = (\<lambda>k. Inr ''0xf0''),
      readContract_reply = (\<lambda>k. Inr 0),
      waitForTransactionReceipt_reply = (\<lambda>k. Inr mock_receipt),
      clock = (\<lambda>k. 1700000000000 + int k),
      random_draw = (\<lambda>k. 4242 + k),
      entropy = (\<lambda>k i. of_nat (7 * i + k))\<rparr>"

definition rpc_down :: error where
  "rpc_down = Error ''HTTP request failed.'' ''fetch failed''"

definition offline_env :: env where
  "offline_env =
     mock_env\<lparr>deployContract_reply := (\<lambda>k. Inl rpc_down),
              writeContract_reply := (\<lambda>k. Inl rpc_down),
              sendTransaction_reply := (\<lambda>k. Inl rpc_down),
              readContract_reply := (\<lambda>k. Inl rpc_down),
              waitForTransactionReceipt_reply := (\<lambda>k. Inl rpc_down)\<rparr>"

subsection \<open>Client calls\<close>

fun call_of :: "event \<Rightarrow> call option" where
  "call_of (Call c) = Some c"
| "call_of e = None"

text \<open>
  The gas price rule of the script: a call that submits a transaction carries
  \<open>HIGH_GAS_PRICE\<close>, a read or a wait for a receipt carries none.
\<close>

definition priced :: "call \<Rightarrow> bool" where
  "priced c = (gasPrice_of c = (if submits_transaction c then Some HIGH_GAS_PRICE else None))"

text \<open>The calls of a trace that break the rule.\<close>

fun deviating :: "event \<Rightarrow> call option" where
  "deviating (Call c) = (if priced c then None else Some c)"
| "deviating e = None"

text \<open>The read of the allowance in \<open>task_swapTokens\<close>, as the client receives it.\<close>

definition allowance_call :: "env \<Rightarrow> call" where
  "allowance_call w =
     ReadContract HLS_TOKEN_ADDRESS ERC20_ABI ''allowance''
       [Addr (account_address w), Addr SWAP_ROUTER_ADDRESS]"

text \<open>The client calls an operation makes from a state.\<close>

definition calls_made :: "'a io \<Rightarrow> st \<Rightarrow> call list" where
  "calls_made m s = observe call_of (drop (length (trace s)) (trace (snd (m s))))"

text \<open>An environment in which the router is already approved for five tokens.\<close>

definition approved_env :: env where
  "approved_env = mock_env\<lparr>readContract_reply := (\<lambda>k. Inr (5 * 10 ^ 18))\<rparr>"

subsection \<open>Errors and receipts\<close>











text \<open>
  An operation that, whenever it returns, returns a value that satisfies \<open>Q\<close> and has
  added to the trace what \<open>f\<close> shows as \<open>xs\<close>.
\<close>

definition yields :: "(event \<Rightarrow> 'b option) \<Rightarrow> 'b list \<Rightarrow> ('a \<Rightarrow> bool) \<Rightarrow> 'a io \<Rightarrow> bool" where
  "yields f xs Q m =
     (\<forall>s a s'. m s = (Inr a, s') \<longrightarrow>
        Q a \<and> observe f (trace s') = observe f (trace s) @ xs)"

subsection \<open>Time zones and sessions\<close>

text \<open>A zone with one offset all year, such as UTC.\<close>

definition fixed_zone :: "int \<Rightarrow> tz" where
  "fixed_zone c = \<lparr>utc_offset = (\<lambda>t. c), local_offset = (\<lambda>t. c)\<rparr>"

text \<open>
  New York around 10 March 2024: five hours behind UTC until 07:00 UTC (02:00 local
  time) of that day, four hours behind from then on; local times before 03:00 of that
  day are read with the earlier offset.
\<close>

definition new_york :: tz where
  "new_york =
     \<lparr>utc_offset = (\<lambda>t. if t < 1710054000000 then - 18000000 else - 14400000),
      local_offset = (\<lambda>t. if t < 1710039600000 then - 18000000 else - 14400000)\<rparr>"

text \<open>A session in UTC that takes two days.\<close>

definition overrun_world :: world where
  "overrun_world =
     \<lparr>zone = fixed_zone 0,
      account = ''0xacc0'',
      session_start = (\<lambda>k. 1700000000000 + 172800000 * int k),
      session_end = (\<lambda>k. 1700000000000 + 172800000 * int k + 172800000),
      main_env = (\<lambda>k. mock_env),
      token_env = (\<lambda>k. mock_env)\<rparr>"

text \<open>What the \<open>k\<close>-th session writes to the log of the master loop.\<close>

definition session_events :: "world \<Rightarrow> nat \<Rightarrow> master_event list" where
  "session_events W k =
     [StartingSession (session_start W k),
      Sessions (trace (snd (runMainTasks (main_env W k) initial)))
               (trace (snd (runTokenDeploy (token_env W k) initial))),
      SessionComplete,
      NextSessionAt (nextSessionTime (zone W) (session_start W k)),
      WaitingApproximately
        (waitTime (zone W) (session_start W k) (session_end W k) div 3600000)
        (js_rem (waitTime (zone W) (session_start W k) (session_end W k)) 3600000 div 60000),
      MasterSleep (waitTime (zone W) (session_start W k) (session_end W k))]"

text \<open>The start times of the sessions in the log of the master loop.\<close>

fun session_starts :: "master_event list \<Rightarrow> int list" where
  "session_starts [] = []"
| "session_starts (StartingSession t # es) = t # session_starts es"
| "session_starts (e # es) = session_starts es"

section \<open>Verification\<close>

subsection \<open>Traces: what an operation appends\<close>

lemmas prims = console_log_def console_error_def sleep_def deployContract_def writeContract_def
  sendTransaction_def readContract_def waitForTransactionReceipt_def Date_now_def
  Math_floor_random_times_def randomBytes_def

lemma observe_append [simp]: "observe f (xs @ ys) = observe f xs @ observe f ys"
  by (induction xs) (auto split: option.splits)

lemma emits_only_return: "emits_only P (return a)"
  by (simp add: emits_only_def return_def)

lemma emits_only_emit: "P e \<Longrightarrow> emits_only P (emit e)"
  by (simp add: emits_only_def emit_def)

lemma emits_only_ask: "emits_only P (ask g)"
  by (simp add: emits_only_def ask_def)

lemma emits_only_client_call: "P (Call c) \<Longrightarrow> emits_only P (client_call c r)"
  by (simp add: emits_only_def client_call_def)

lemma emits_only_bind:
  assumes "emits_only P m" and "\<And>a. emits_only P (f a)"
  shows "emits_only P (bind m f)"
  unfolding emits_only_def
proof
  fix s
  obtain es where es: "trace (snd (m s)) = trace s @ es" "list_all P es"
    using assms(1) unfolding emits_only_def by blast
  show "\<exists>es. trace (snd (bind m f s)) = trace s @ es \<and> list_all P es"
  proof (cases "m s")
    case (Pair r s')
    show ?thesis
    proof (cases r)
      case (Inl e)
      with Pair es show ?thesis by (auto simp: bind_def)
    next
      case (Inr a)
      obtain es' where es': "trace (snd (f a s')) = trace s' @ es'" "list_all P es'"
        using assms(2) unfolding emits_only_def by blast
      with Pair Inr es show ?thesis by (auto simp: bind_def)
    qed
  qed
qed

lemma emits_only_if:
  "emits_only P a \<Longrightarrow> emits_only P b \<Longrightarrow> emits_only P (if c then a else b)"
  by simp

lemmas emits_only_intros = emits_only_bind emits_only_if emits_only_return
  emits_only_emit emits_only_ask emits_only_client_call

text \<open>Sequencing after an operation that cannot throw.\<close>

lemma bind_emit: "bind (emit e) f s = f () (s\<lparr>trace := trace s @ [e]\<rparr>)"
  by (simp add: bind_def emit_def)

lemma bind_ask: "bind (ask g) f s = f (g (tick s)) (s\<lparr>tick := Suc (tick s)\<rparr>)"
  by (simp add: bind_def ask_def)

lemma bind_return: "bind (return a) f s = f a s"
  by (simp add: bind_def return_def)

lemma bind_if: "bind (if c then a else b) f s = (if c then bind a f s else bind b f s)"
  by simp

lemma bind_assoc: "bind (bind m f) g s = bind m (\<lambda>x. bind (f x) g) s"
  by (simp add: bind_def split: prod.splits sum.splits)

lemma bind_client_call:
  "bind (client_call c r) f s =
     (case r (tick s) of
        Inl e \<Rightarrow> (Inl e, s\<lparr>tick := Suc (tick s), trace := trace s @ [Call c]\<rparr>)
      | Inr a \<Rightarrow> f a (s\<lparr>tick := Suc (tick s), trace := trace s @ [Call c]\<rparr>))"
  by (simp add: bind_def client_call_def split: sum.splits)

subsection \<open>What a task writes after its banner\<close>

lemma after_banner:
  assumes "emits_only P (f ())"
  shows "\<exists>es. trace (snd (bind (console_log m) f s)) = trace s @ Log m # es \<and> list_all P es"
proof -
  have "\<exists>es. trace (snd (f () s1)) = trace s1 @ es \<and> list_all P es" for s1
    using assms unfolding emits_only_def by blast
  from this [of "s\<lparr>trace := trace s @ [Log m]\<rparr>"]
  show ?thesis by (auto simp: console_log_def bind_emit)
qed

lemma sendSubtask_events: "emits_only task_event (sendSubtask w to data)"
  unfolding sendSubtask_def prims by (intro emits_only_intros; simp)

lemma run_task_shape:
  "\<exists>es. trace (snd (run_task t w s)) = trace s @ Log (TaskBanner t) # es \<and> list_all task_event es"
proof (cases t)
  case Task_deployContract
  show ?thesis unfolding Task_deployContract run_task.simps task_deployContract_def
    by (rule after_banner) (unfold prims, (intro emits_only_intros; simp))
next
  case Task_createToken
  show ?thesis unfolding Task_createToken run_task.simps task_createToken_def Let_def
    by (rule after_banner) (unfold prims, (intro emits_only_intros; simp))
next
  case Task_mintNft
  show ?thesis unfolding Task_mintNft run_task.simps task_mintNft_def
    by (rule after_banner) (unfold prims, (intro emits_only_intros; simp))
next
  case Task_claimAndBurn
  show ?thesis unfolding Task_claimAndBurn run_task.simps task_claimAndBurn_def
    by (rule after_banner)
       (intro emits_only_bind sendSubtask_events; simp add: prims emits_only_emit DELAY_BETWEEN_SUBTASKS_MS_def)
next
  case Task_swapTokens
  show ?thesis unfolding Task_swapTokens run_task.simps task_swapTokens_def Let_def
    by (rule after_banner) (unfold prims, (intro emits_only_intros; simp))
next
  case Task_createMintpadNFT
  show ?thesis unfolding Task_createMintpadNFT run_task.simps task_createMintpadNFT_def Let_def
    by (rule after_banner) (unfold prims, (intro emits_only_intros; simp))
qed

lemma guarded_shape:
  "\<exists>es. guarded w t s = (Inr (), snd (guarded w t s)) \<and>
        trace (snd (guarded w t s)) = trace s @ Log (TaskBanner t) # es \<and> list_all task_event es"
proof -
  obtain es where es: "trace (snd (run_task t w s)) = trace s @ Log (TaskBanner t) # es"
    "list_all task_event es"
    using run_task_shape by blast
  show ?thesis
  proof (cases "run_task t w s")
    case (Pair r s')
    with es show ?thesis
      by (cases r) (auto simp: guarded_def try_catch_def console_error_def emit_def)
  qed
qed

lemma bind_guarded: "bind (guarded w t) f s = f () (snd (guarded w t s))"
proof -
  obtain s' where "guarded w t s = (Inr (), s')"
    using guarded_shape by blast
  then show ?thesis
    by (simp add: bind_def)
qed

lemma observe_quiet:
  assumes "\<And>e. task_event e \<Longrightarrow> f e = None" and "list_all task_event es"
  shows "observe f es = []"
  using assms(2) by (induction es) (auto simp: assms(1))

lemma observe_guarded:
  assumes "\<And>e. task_event e \<Longrightarrow> f e = None"
  shows "observe f (trace (snd (guarded w t s))) =
         observe f (trace s) @ observe f [Log (TaskBanner t)]"
proof -
  obtain es where "trace (snd (guarded w t s)) = trace s @ Log (TaskBanner t) # es"
    "list_all task_event es"
    using guarded_shape by blast
  then show ?thesis
    using observe_quiet [OF assms] by (auto split: option.splits)
qed

subsection \<open>The skeleton of a sub-scheduler's trace\<close>

lemma for_each_task_skeleton:
  assumes "\<And>e. task_event e \<Longrightarrow> f e = None"
  shows "fst (for_each_task w ts s) = Inr () \<and>
         observe f (trace (snd (for_each_task w ts s))) =
         observe f (trace s) @ concat (map (\<lambda>t. observe f (task_slot t)) ts)"
proof (induction ts arbitrary: s)
  case Nil
  show ?case by (simp add: return_def)
next
  case (Cons t ts)
  show ?case
    by (simp add: bind_guarded console_log_def sleep_def bind_emit Cons observe_guarded [OF assms]
        task_slot_def split: option.splits)
qed

lemma bind_returns: "fst (m s) = Inr a \<Longrightarrow> bind m f s = f a (snd (m s))"
  by (cases "m s") (simp add: bind_def)

lemma no_observer: "task_event e \<Longrightarrow> (\<lambda>_. None :: unit option) e = None"
  by simp

lemma bind_for_each_task: "bind (for_each_task w ts) f s = f () (snd (for_each_task w ts s))"
  using for_each_task_skeleton [of "\<lambda>_. None :: unit option", OF no_observer]
  by (simp add: bind_returns)

lemma observe_concat_map:
  "observe f (concat (map g xs)) = concat (map (\<lambda>x. observe f (g x)) xs)"
  by (induction xs) simp_all

lemma main_sequences_skeleton:
  assumes "\<And>e. task_event e \<Longrightarrow> f e = None" and "\<And>i d. f (Log (SequenceFinished i d)) = None"
  shows "fst (main_sequences w n i s) = Inr () \<and>
         observe f (trace (snd (main_sequences w n i s))) =
         observe f (trace s) @ concat (map (\<lambda>j. observe f (main_run n j)) [i..<Suc n])"
proof (induction w n i arbitrary: s rule: main_sequences.induct)
  case (1 w n i)
  show ?case
  proof (cases "i \<le> n")
    case False
    then show ?thesis by (simp add: main_sequences.simps [of w n i] return_def)
  next
    case True
    then have upt: "[i..<Suc n] = i # [Suc i..<Suc n]"
      by (simp add: upt_conv_Cons)
    note IH = 1 [OF True]
    show ?thesis
      by (subst (1 2) main_sequences.simps)
         (simp add: True upt IH console_log_def sleep_def Date_now_def bind_emit bind_ask
            bind_if bind_assoc bind_return bind_for_each_task
            for_each_task_skeleton [OF assms(1)] assms(2) main_run_def observe_concat_map
            del: upt_Suc split: option.splits)
  qed
qed

lemma token_deploys_skeleton:
  assumes "\<And>e. task_event e \<Longrightarrow> f e = None"
  shows "fst (token_deploys w n i s) = Inr () \<and>
         observe f (trace (snd (token_deploys w n i s))) =
         observe f (trace s) @ concat (map (\<lambda>j. observe f (token_run n j)) [i..<Suc n])"
proof (induction w n i arbitrary: s rule: token_deploys.induct)
  case (1 w n i)
  show ?case
  proof (cases "i \<le> n")
    case False
    then show ?thesis by (simp add: token_deploys.simps [of w n i] return_def)
  next
    case True
    then have upt: "[i..<Suc n] = i # [Suc i..<Suc n]"
      by (simp add: upt_conv_Cons)
    note IH = 1 [OF True]
    show ?thesis
      by (subst (1 2) token_deploys.simps)
         (simp add: True upt IH console_log_def sleep_def bind_emit
            bind_if bind_assoc bind_return bind_guarded
            observe_guarded [OF assms(1)] token_run_def
            del: upt_Suc split: option.splits)
  qed
qed

subsection \<open>The schedule of a sub-scheduler\<close>

lemma schedule_view_quiet: "task_event e \<Longrightarrow> schedule_view e = None"
  by (cases e rule: schedule_view.cases) simp_all

lemma pace_quiet: "interval \<noteq> DELAY_BETWEEN_SUBTASKS_MS \<Longrightarrow> task_event e \<Longrightarrow> pace interval e = None"
  by (cases "(interval, e)" rule: pace.cases) auto

lemma runMainTasks_skeleton:
  assumes "\<And>e. task_event e \<Longrightarrow> f e = None" and "\<And>i d. f (Log (SequenceFinished i d)) = None"
  shows "fst (runMainTasks w s) = Inr () \<and>
         observe f (trace (snd (runMainTasks w s))) =
         observe f (trace s) @ observe f [Log (SchedulerStarting 1)] @
         concat (map (\<lambda>j. observe f (main_run MAIN_RUNS_PER_SESSION j)) [1..<Suc MAIN_RUNS_PER_SESSION]) @
         observe f [Log (SchedulerComplete 1)]"
  using main_sequences_skeleton [where f = f and w = w and n = MAIN_RUNS_PER_SESSION and i = 1, OF assms]
  by (simp add: runMainTasks_def console_log_def bind_emit bind_returns emit_def split: option.splits)

lemma runTokenDeploy_skeleton:
  assumes "\<And>e. task_event e \<Longrightarrow> f e = None"
  shows "fst (runTokenDeploy w s) = Inr () \<and>
         observe f (trace (snd (runTokenDeploy w s))) =
         observe f (trace s) @ observe f [Log (SchedulerStarting 2)] @
         concat (map (\<lambda>j. observe f (token_run TOKEN_RUNS_PER_SESSION j)) [1..<Suc TOKEN_RUNS_PER_SESSION]) @
         observe f [Log (SchedulerComplete 2)]"
  using token_deploys_skeleton [where f = f and w = w and n = TOKEN_RUNS_PER_SESSION and i = 1, OF assms]
  by (simp add: runTokenDeploy_def console_log_def bind_emit bind_returns emit_def split: option.splits)

lemma schedule_main_run:
  "observe schedule_view (main_run n j) = Run j # map Started tasks"
  by (simp add: main_run_def tasks_def task_slot_def)

lemma schedule_token_run:
  "observe schedule_view (token_run n j) = [Run j, Started Task_createToken]"
  by (simp add: token_run_def)

text \<open>
  Claim C1. A sub-scheduler with run count \<open>n\<close> opens the iterations \<open>1\<close> to
  \<open>n\<close>, and in each of them starts every task of its list once, in the listed order,
  whatever the environment answers: \<open>runMainTasks\<close> runs its five tasks ten times and
  \<open>runTokenDeploy\<close> its single task three times.
\<close>

theorem sub_schedulers_run_task_list_N_times:
  "observe schedule_view (trace (snd (main_sequences w n 1 s))) =
     observe schedule_view (trace s) @ concat (map (\<lambda>i. Run i # map Started tasks) [1..<Suc n])
   \<and> observe schedule_view (trace (snd (token_deploys w n 1 s))) =
     observe schedule_view (trace s) @ concat (map (\<lambda>i. [Run i, Started Task_createToken]) [1..<Suc n])
   \<and> observe schedule_view (trace (snd (runMainTasks w s))) =
     observe schedule_view (trace s) @
     concat (map (\<lambda>i. [Run i, Started Task_deployContract, Started Task_mintNft,
                        Started Task_claimAndBurn, Started Task_swapTokens,
                        Started Task_createMintpadNFT]) [1..<11])
   \<and> observe schedule_view (trace (snd (runTokenDeploy w s))) =
     observe schedule_view (trace s) @
     [Run 1, Started Task_createToken, Run 2, Started Task_createToken,
      Run 3, Started Task_createToken]"
proof (intro conjI)
  show "observe schedule_view (trace (snd (main_sequences w n 1 s))) =
     observe schedule_view (trace s) @ concat (map (\<lambda>i. Run i # map Started tasks) [1..<Suc n])"
    using main_sequences_skeleton [of schedule_view w n 1 s]
    by (simp add: schedule_view_quiet schedule_main_run del: upt_Suc)
  show "observe schedule_view (trace (snd (token_deploys w n 1 s))) =
     observe schedule_view (trace s) @ concat (map (\<lambda>i. [Run i, Started Task_createToken]) [1..<Suc n])"
    using token_deploys_skeleton [of schedule_view w n 1 s]
    by (simp add: schedule_view_quiet schedule_token_run del: upt_Suc)
  have eleven: "Suc MAIN_RUNS_PER_SESSION = 11"
    by (simp add: MAIN_RUNS_PER_SESSION_def)
  show "observe schedule_view (trace (snd (runMainTasks w s))) =
     observe schedule_view (trace s) @
     concat (map (\<lambda>i. [Run i, Started Task_deployContract, Started Task_mintNft,
                        Started Task_claimAndBurn, Started Task_swapTokens,
                        Started Task_createMintpadNFT]) [1..<11])"
    using runMainTasks_skeleton [of schedule_view w s]
    by (simp add: schedule_view_quiet schedule_main_run eleven tasks_def del: upt_Suc)
  have upt3: "[Suc 0..<Suc TOKEN_RUNS_PER_SESSION] = [1, 2, 3]"
    by (simp add: TOKEN_RUNS_PER_SESSION_def upt_rec)
  show "observe schedule_view (trace (snd (runTokenDeploy w s))) =
     observe schedule_view (trace s) @
     [Run 1, Started Task_createToken, Run 2, Started Task_createToken,
      Run 3, Started Task_createToken]"
    using runTokenDeploy_skeleton [of schedule_view w s]
    by (simp add: schedule_view_quiet schedule_token_run upt3 del: upt_Suc)
qed

subsection \<open>The pace of a sub-scheduler\<close>

lemma pace_main_run:
  "observe (pace MAIN_RUN_INTERVAL_MS) (main_run n j) = Run j # (if j < n then [Pause] else [])"
  by (simp add: main_run_def tasks_def task_slot_def MAIN_RUN_INTERVAL_MS_def
      MAIN_INTERVAL_HOURS_def MAIN_INTERVAL_MINUTES_def DELAY_BETWEEN_TASKS_MS_def)

lemma pace_token_run:
  "observe (pace TOKEN_RUN_INTERVAL_MS) (token_run n j) = Run j # (if j < n then [Pause] else [])"
  by (simp add: token_run_def)

lemma pace_main_quiet: "task_event e \<Longrightarrow> pace MAIN_RUN_INTERVAL_MS e = None"
  by (rule pace_quiet)
     (simp_all add: MAIN_RUN_INTERVAL_MS_def MAIN_INTERVAL_HOURS_def MAIN_INTERVAL_MINUTES_def
        DELAY_BETWEEN_SUBTASKS_MS_def)

lemma pace_token_quiet: "task_event e \<Longrightarrow> pace TOKEN_RUN_INTERVAL_MS e = None"
  by (rule pace_quiet)
     (simp_all add: TOKEN_RUN_INTERVAL_MS_def TOKEN_INTERVAL_HOURS_def TOKEN_INTERVAL_MINUTES_def
        DELAY_BETWEEN_SUBTASKS_MS_def)

lemma guarded_emits:
  assumes "\<And>e. task_event e \<Longrightarrow> P e" and "P (Log (TaskBanner t))"
  shows "emits_only P (guarded w t)"
  unfolding emits_only_def
proof
  fix s
  obtain es where "trace (snd (guarded w t s)) = trace s @ Log (TaskBanner t) # es"
    "list_all task_event es"
    using guarded_shape by blast
  with assms show "\<exists>es. trace (snd (guarded w t s)) = trace s @ es \<and> list_all P es"
    by (auto simp: list_all_iff)
qed

lemma for_each_task_emits:
  assumes "\<And>e. task_event e \<Longrightarrow> P e" and "\<And>t. P (Log (TaskBanner t))"
    and "\<And>d. P (Log (WaitingBetweenTasks d))" and "P (Sleep DELAY_BETWEEN_TASKS_MS)"
  shows "emits_only P (for_each_task w ts)"
proof (induction ts)
  case Nil
  show ?case by (simp add: emits_only_return)
next
  case (Cons t ts)
  show ?case
    unfolding for_each_task.simps console_log_def sleep_def
    by (intro emits_only_bind guarded_emits emits_only_emit assms Cons)
qed

lemma for_each_task_pace:
  "\<exists>es. trace (snd (for_each_task w ts s)) = trace s @ es
     \<and> list_all (\<lambda>e. pace MAIN_RUN_INTERVAL_MS e = None) es
     \<and> observe schedule_view es = map Started ts"
proof -
  have "emits_only (\<lambda>e. pace MAIN_RUN_INTERVAL_MS e = None) (for_each_task w ts)"
  proof (rule for_each_task_emits)
    show "pace MAIN_RUN_INTERVAL_MS (Sleep DELAY_BETWEEN_TASKS_MS) = None"
      by (simp add: MAIN_RUN_INTERVAL_MS_def MAIN_INTERVAL_HOURS_def MAIN_INTERVAL_MINUTES_def
          DELAY_BETWEEN_TASKS_MS_def)
  qed (simp_all add: pace_main_quiet)
  then obtain es where es: "trace (snd (for_each_task w ts s)) = trace s @ es"
    "list_all (\<lambda>e. pace MAIN_RUN_INTERVAL_MS e = None) es"
    unfolding emits_only_def by blast
  have "observe schedule_view (trace (snd (for_each_task w ts s))) =
      observe schedule_view (trace s) @ map Started ts"
    using for_each_task_skeleton [of schedule_view w ts s]
    by (simp add: schedule_view_quiet task_slot_def comp_def)
  with es(1) have "observe schedule_view es = map Started ts"
    by simp
  with es show ?thesis by blast
qed

text \<open>One iteration of the main loop: header, body, pause, and on to the next.\<close>

lemma main_sequences_run:
  assumes "i \<le> n"
  shows "\<exists>b s'. main_body i b
     \<and> trace s' = trace s @ Log (RunningSequence 1 i n) # b @ main_pause n i
     \<and> main_sequences w n i s = main_sequences w n (Suc i) s'"
proof -
  define s1 where "s1 = s\<lparr>trace := trace s @ [Log (RunningSequence 1 i n)], tick := Suc (tick s)\<rparr>"
  define s2 where "s2 = snd (for_each_task w tasks s1)"
  obtain es where es: "trace s2 = trace s1 @ es"
    "list_all (\<lambda>e. pace MAIN_RUN_INTERVAL_MS e = None) es"
    "observe schedule_view es = map Started tasks"
    unfolding s2_def using for_each_task_pace by blast
  define d where "d = clock w (tick s2) - clock w (tick s)"
  define b where "b = es @ [Log (SequenceFinished i d)]"
  define s' where "s' = s2\<lparr>tick := Suc (tick s2),
     trace := trace s2 @ Log (SequenceFinished i d) # main_pause n i\<rparr>"
  have "main_body i b"
    using es(2,3) by (simp add: main_body_def b_def)
  moreover have "trace s' = trace s @ Log (RunningSequence 1 i n) # b @ main_pause n i"
    by (simp add: s'_def es(1) s1_def b_def)
  moreover have "main_sequences w n i s = main_sequences w n (Suc i) s'"
    using assms
    by (subst main_sequences.simps)
       (simp add: console_log_def sleep_def Date_now_def bind_emit bind_ask bind_if bind_assoc
          bind_return bind_for_each_task s1_def s2_def d_def s'_def main_pause_def)
  ultimately show ?thesis by blast
qed

lemma main_sequences_runs:
  "\<exists>bodies. length bodies = Suc n - i
     \<and> list_all (\<lambda>(j, b). main_body j b) (zip [i..<Suc n] bodies)
     \<and> trace (snd (main_sequences w n i s)) =
         trace s @ concat (map (\<lambda>(j, b). Log (RunningSequence 1 j n) # b @ main_pause n j)
                            (zip [i..<Suc n] bodies))"
proof (induction w n i arbitrary: s rule: main_sequences.induct)
  case (1 w n i)
  show ?case
  proof (cases "i \<le> n")
    case False
    then show ?thesis
      by (simp add: main_sequences.simps [of w n i] return_def)
  next
    case True
    then obtain b s' where run: "main_body i b"
      "trace s' = trace s @ Log (RunningSequence 1 i n) # b @ main_pause n i"
      "main_sequences w n i s = main_sequences w n (Suc i) s'"
      using main_sequences_run by blast
    from 1 [OF True, of s'] obtain bodies where rest: "length bodies = Suc n - Suc i"
      "list_all (\<lambda>(j, b). main_body j b) (zip [Suc i..<Suc n] bodies)"
      "trace (snd (main_sequences w n (Suc i) s')) =
         trace s' @ concat (map (\<lambda>(j, b). Log (RunningSequence 1 j n) # b @ main_pause n j)
                            (zip [Suc i..<Suc n] bodies))"
      by blast
    from True have upt: "[i..<Suc n] = i # [Suc i..<Suc n]"
      by (simp add: upt_conv_Cons)
    have "length (b # bodies) = Suc n - i"
      using True rest(1) by simp
    moreover have "list_all (\<lambda>(j, b). main_body j b) (zip [i..<Suc n] (b # bodies))"
      using run(1) rest(2) by (simp add: upt del: upt_Suc)
    moreover have "trace (snd (main_sequences w n i s)) =
         trace s @ concat (map (\<lambda>(j, b). Log (RunningSequence 1 j n) # b @ main_pause n j)
                            (zip [i..<Suc n] (b # bodies)))"
      using run(2,3) rest(3) by (simp add: upt del: upt_Suc)
    ultimately show ?thesis by blast
  qed
qed

lemma token_deploys_run:
  assumes "i \<le> n"
  shows "\<exists>b s'. token_body b
     \<and> trace s' = trace s @ Log (RunningSequence 2 i n) # b @ token_pause n i
     \<and> token_deploys w n i s = token_deploys w n (Suc i) s'"
proof -
  define s1 where "s1 = s\<lparr>trace := trace s @ [Log (RunningSequence 2 i n)]\<rparr>"
  define s2 where "s2 = snd (guarded w Task_createToken s1)"
  obtain es where es: "trace s2 = trace s1 @ Log (TaskBanner Task_createToken) # es"
    "list_all task_event es"
    unfolding s2_def using guarded_shape by blast
  define b where "b = Log (TaskBanner Task_createToken) # es"
  define s' where "s' = s2\<lparr>trace := trace s2 @ token_pause n i\<rparr>"
  have "list_all (\<lambda>e. pace TOKEN_RUN_INTERVAL_MS e = None) es"
    using es(2) by (simp add: list_all_iff pace_token_quiet)
  moreover have "observe schedule_view es = []"
    using es(2) by (induction es) (simp_all add: schedule_view_quiet)
  ultimately have "token_body b"
    by (simp add: token_body_def b_def)
  moreover have "trace s' = trace s @ Log (RunningSequence 2 i n) # b @ token_pause n i"
    by (simp add: s'_def es(1) s1_def b_def)
  moreover have "token_deploys w n i s = token_deploys w n (Suc i) s'"
    using assms
    by (subst token_deploys.simps)
       (simp add: console_log_def sleep_def bind_emit bind_if bind_assoc bind_return
          bind_guarded s1_def s2_def s'_def token_pause_def)
  ultimately show ?thesis by blast
qed

lemma token_deploys_runs:
  "\<exists>bodies. length bodies = Suc n - i
     \<and> list_all token_body bodies
     \<and> trace (snd (token_deploys w n i s)) =
         trace s @ concat (map (\<lambda>(j, b). Log (RunningSequence 2 j n) # b @ token_pause n j)
                            (zip [i..<Suc n] bodies))"
proof (induction w n i arbitrary: s rule: token_deploys.induct)
  case (1 w n i)
  show ?case
  proof (cases "i \<le> n")
    case False
    then show ?thesis
      by (simp add: token_deploys.simps [of w n i] return_def)
  next
    case True
    then obtain b s' where run: "token_body b"
      "trace s' = trace s @ Log (RunningSequence 2 i n) # b @ token_pause n i"
      "token_deploys w n i s = token_deploys w n (Suc i) s'"
      using token_deploys_run by blast
    from 1 [OF True, of s'] obtain bodies where rest: "length bodies = Suc n - Suc i"
      "list_all token_body bodies"
      "trace (snd (token_deploys w n (Suc i) s')) =
         trace s' @ concat (map (\<lambda>(j, b). Log (RunningSequence 2 j n) # b @ token_pause n j)
                            (zip [Suc i..<Suc n] bodies))"
      by blast
    from True have upt: "[i..<Suc n] = i # [Suc i..<Suc n]"
      by (simp add: upt_conv_Cons)
    have "length (b # bodies) = Suc n - i"
      using True rest(1) by simp
    moreover have "list_all token_body (b # bodies)"
      using run(1) rest(2) by simp
    moreover have "trace (snd (token_deploys w n i s)) =
         trace s @ concat (map (\<lambda>(j, b). Log (RunningSequence 2 j n) # b @ token_pause n j)
                            (zip [i..<Suc n] (b # bodies)))"
      using run(2,3) rest(3) by (simp add: upt del: upt_Suc)
    ultimately show ?thesis by blast
  qed
qed

lemma runMainTasks_runs:
  "\<exists>bodies. length bodies = MAIN_RUNS_PER_SESSION
     \<and> list_all (\<lambda>(i, b). main_body i b) (zip [1..<Suc MAIN_RUNS_PER_SESSION] bodies)
     \<and> trace (snd (runMainTasks w s)) =
         trace s @ Log (SchedulerStarting 1)
         # concat (map (\<lambda>(i, b). Log (RunningSequence 1 i MAIN_RUNS_PER_SESSION) # b
                                 @ main_pause MAIN_RUNS_PER_SESSION i)
                    (zip [1..<Suc MAIN_RUNS_PER_SESSION] bodies))
         @ [Log (SchedulerComplete 1)]"
proof -
  define s1 where "s1 = s\<lparr>trace := trace s @ [Log (SchedulerStarting 1)]\<rparr>"
  obtain bodies where bodies: "length bodies = Suc MAIN_RUNS_PER_SESSION - 1"
    "list_all (\<lambda>(i, b). main_body i b) (zip [1..<Suc MAIN_RUNS_PER_SESSION] bodies)"
    "trace (snd (main_sequences w MAIN_RUNS_PER_SESSION 1 s1)) =
       trace s1 @ concat (map (\<lambda>(i, b). Log (RunningSequence 1 i MAIN_RUNS_PER_SESSION) # b
                                 @ main_pause MAIN_RUNS_PER_SESSION i)
                    (zip [1..<Suc MAIN_RUNS_PER_SESSION] bodies))"
    using main_sequences_runs [of MAIN_RUNS_PER_SESSION 1 w s1] by blast
  have "fst (main_sequences w MAIN_RUNS_PER_SESSION 1 s1) = Inr ()"
    using main_sequences_skeleton [of schedule_view w MAIN_RUNS_PER_SESSION 1 s1]
    by (simp add: schedule_view_quiet)
  then have "trace (snd (runMainTasks w s)) =
      trace (snd (main_sequences w MAIN_RUNS_PER_SESSION 1 s1)) @ [Log (SchedulerComplete 1)]"
    by (simp add: runMainTasks_def console_log_def bind_emit bind_returns s1_def emit_def)
  with bodies show ?thesis
    by (intro exI [of _ bodies]) (simp add: s1_def)
qed

lemma runTokenDeploy_runs:
  "\<exists>bodies. length bodies = TOKEN_RUNS_PER_SESSION
     \<and> list_all token_body bodies
     \<and> trace (snd (runTokenDeploy w s)) =
         trace s @ Log (SchedulerStarting 2)
         # concat (map (\<lambda>(i, b). Log (RunningSequence 2 i TOKEN_RUNS_PER_SESSION) # b
                                 @ token_pause TOKEN_RUNS_PER_SESSION i)
                    (zip [1..<Suc TOKEN_RUNS_PER_SESSION] bodies))
         @ [Log (SchedulerComplete 2)]"
proof -
  define s1 where "s1 = s\<lparr>trace := trace s @ [Log (SchedulerStarting 2)]\<rparr>"
  obtain bodies where bodies: "length bodies = Suc TOKEN_RUNS_PER_SESSION - 1"
    "list_all token_body bodies"
    "trace (snd (token_deploys w TOKEN_RUNS_PER_SESSION 1 s1)) =
       trace s1 @ concat (map (\<lambda>(i, b). Log (RunningSequence 2 i TOKEN_RUNS_PER_SESSION) # b
                                 @ token_pause TOKEN_RUNS_PER_SESSION i)
                    (zip [1..<Suc TOKEN_RUNS_PER_SESSION] bodies))"
    using token_deploys_runs [of TOKEN_RUNS_PER_SESSION 1 w s1] by blast
  have "fst (token_deploys w TOKEN_RUNS_PER_SESSION 1 s1) = Inr ()"
    using token_deploys_skeleton [of schedule_view w TOKEN_RUNS_PER_SESSION 1 s1]
    by (simp add: schedule_view_quiet)
  then have "trace (snd (runTokenDeploy w s)) =
      trace (snd (token_deploys w TOKEN_RUNS_PER_SESSION 1 s1)) @ [Log (SchedulerComplete 2)]"
    by (simp add: runTokenDeploy_def console_log_def bind_emit bind_returns s1_def emit_def)
  with bodies show ?thesis
    by (intro exI [of _ bodies]) (simp add: s1_def)
qed

text \<open>
  Claim C7. In a sub-scheduler with run count \<open>n\<close>, iteration \<open>i\<close> is followed by the
  interval sleep exactly when \<open>i < n\<close>. Read for the iteration headers and the sleeps
  of the interval's length, the trace is \<open>Run 1, Pause, Run 2, Pause, ..., Run n\<close>. Event
  by event, the new part of the trace is, for \<open>i = 1, ..., n\<close> in turn, the header of
  iteration \<open>i\<close>, then its body, then \<open>main_pause n i\<close> (or \<open>token_pause n i\<close>): the
  body holds no header and no sleep of the interval's length, it starts every task of the
  iteration, in order, and in \<open>runMainTasks\<close> it ends with the line that reports the end of
  sequence \<open>i\<close>; the pause is the line that announces the wait and the interval sleep when
  \<open>i < n\<close>, and nothing when \<open>i = n\<close>. So the sleep comes after the tasks of a run, before
  the header of the next one, and not after the last run.
\<close>

theorem interval_sleep_iff_not_last_run:
  "observe (pace MAIN_RUN_INTERVAL_MS) (trace (snd (main_sequences w n 1 s))) =
     observe (pace MAIN_RUN_INTERVAL_MS) (trace s) @
     concat (map (\<lambda>i. Run i # (if i < n then [Pause] else [])) [1..<Suc n])
   \<and> observe (pace TOKEN_RUN_INTERVAL_MS) (trace (snd (token_deploys w n 1 s))) =
     observe (pace TOKEN_RUN_INTERVAL_MS) (trace s) @
     concat (map (\<lambda>i. Run i # (if i < n then [Pause] else [])) [1..<Suc n])
   \<and> observe (pace MAIN_RUN_INTERVAL_MS) (trace (snd (runMainTasks w s))) =
     observe (pace MAIN_RUN_INTERVAL_MS) (trace s) @
     [Run 1, Pause, Run 2, Pause, Run 3, Pause, Run 4, Pause, Run 5, Pause,
      Run 6, Pause, Run 7, Pause, Run 8, Pause, Run 9, Pause, Run 10]
   \<and> observe (pace TOKEN_RUN_INTERVAL_MS) (trace (snd (runTokenDeploy w s))) =
     observe (pace TOKEN_RUN_INTERVAL_MS) (trace s) @ [Run 1, Pause, Run 2, Pause, Run 3]
   \<and> (\<exists>bodies. length bodies = n
        \<and> list_all (\<lambda>(i, b). main_body i b) (zip [1..<Suc n] bodies)
        \<and> trace (snd (main_sequences w n 1 s)) =
            trace s @ concat (map (\<lambda>(i, b). Log (RunningSequence 1 i n) # b @ main_pause n i)
                               (zip [1..<Suc n] bodies)))
   \<and> (\<exists>bodies. length bodies = n
        \<and> list_all token_body bodies
        \<and> trace (snd (token_deploys w n 1 s)) =
            trace s @ concat (map (\<lambda>(i, b). Log (RunningSequence 2 i n) # b @ token_pause n i)
                               (zip [1..<Suc n] bodies)))
   \<and> (\<exists>bodies. length bodies = MAIN_RUNS_PER_SESSION
        \<and> list_all (\<lambda>(i, b). main_body i b) (zip [1..<Suc MAIN_RUNS_PER_SESSION] bodies)
        \<and> trace (snd (runMainTasks w s)) =
            trace s @ Log (SchedulerStarting 1)
            # concat (map (\<lambda>(i, b). Log (RunningSequence 1 i MAIN_RUNS_PER_SESSION) # b
                                    @ main_pause MAIN_RUNS_PER_SESSION i)
                       (zip [1..<Suc MAIN_RUNS_PER_SESSION] bodies))
            @ [Log (SchedulerComplete 1)])
   \<and> (\<exists>bodies. length bodies = TOKEN_RUNS_PER_SESSION
        \<and> list_all token_body bodies
        \<and> trace (snd (runTokenDeploy w s)) =
            trace s @ Log (SchedulerStarting 2)
            # concat (map (\<lambda>(i, b). Log (RunningSequence 2 i TOKEN_RUNS_PER_SESSION) # b
                                    @ token_pause TOKEN_RUNS_PER_SESSION i)
                       (zip [1..<Suc TOKEN_RUNS_PER_SESSION] bodies))
            @ [Log (SchedulerComplete 2)])"
proof (intro conjI)
  show "observe (pace MAIN_RUN_INTERVAL_MS) (trace (snd (main_sequences w n 1 s))) =
     observe (pace MAIN_RUN_INTERVAL_MS) (trace s) @
     concat (map (\<lambda>i. Run i # (if i < n then [Pause] else [])) [1..<Suc n])"
    using main_sequences_skeleton [of "pace MAIN_RUN_INTERVAL_MS" w n 1 s]
    by (simp add: pace_main_quiet pace_main_run del: upt_Suc)
  show "observe (pace TOKEN_RUN_INTERVAL_MS) (trace (snd (token_deploys w n 1 s))) =
     observe (pace TOKEN_RUN_INTERVAL_MS) (trace s) @
     concat (map (\<lambda>i. Run i # (if i < n then [Pause] else [])) [1..<Suc n])"
    using token_deploys_skeleton [of "pace TOKEN_RUN_INTERVAL_MS" w n 1 s]
    by (simp add: pace_token_quiet pace_token_run del: upt_Suc)
  have ten: "[Suc 0..<11] = [1, 2, 3, 4, 5, 6, 7, 8, 9, 10]"
    by (simp add: upt_rec)
  show "observe (pace MAIN_RUN_INTERVAL_MS) (trace (snd (runMainTasks w s))) =
     observe (pace MAIN_RUN_INTERVAL_MS) (trace s) @
     [Run 1, Pause, Run 2, Pause, Run 3, Pause, Run 4, Pause, Run 5, Pause,
      Run 6, Pause, Run 7, Pause, Run 8, Pause, Run 9, Pause, Run 10]"
    using runMainTasks_skeleton [of "pace MAIN_RUN_INTERVAL_MS" w s]
    by (simp add: pace_main_quiet pace_main_run ten MAIN_RUNS_PER_SESSION_def del: upt_Suc)
  have three: "[Suc 0..<4] = [1, 2, 3]"
    by (simp add: upt_rec)
  show "observe (pace TOKEN_RUN_INTERVAL_MS) (trace (snd (runTokenDeploy w s))) =
     observe (pace TOKEN_RUN_INTERVAL_MS) (trace s) @ [Run 1, Pause, Run 2, Pause, Run 3]"
    using runTokenDeploy_skeleton [of "pace TOKEN_RUN_INTERVAL_MS" w s]
    by (simp add: pace_token_quiet pace_token_run three TOKEN_RUNS_PER_SESSION_def del: upt_Suc)
  show "\<exists>bodies. length bodies = n
        \<and> list_all (\<lambda>(i, b). main_body i b) (zip [1..<Suc n] bodies)
        \<and> trace (snd (main_sequences w n 1 s)) =
            trace s @ concat (map (\<lambda>(i, b). Log (RunningSequence 1 i n) # b @ main_pause n i)
                               (zip [1..<Suc n] bodies))"
    using main_sequences_runs [of n 1 w s] by simp
  show "\<exists>bodies. length bodies = n
        \<and> list_all token_body bodies
        \<and> trace (snd (token_deploys w n 1 s)) =
            trace s @ concat (map (\<lambda>(i, b). Log (RunningSequence 2 i n) # b @ token_pause n i)
                               (zip [1..<Suc n] bodies))"
    using token_deploys_runs [of n 1 w s] by simp
  show "\<exists>bodies. length bodies = MAIN_RUNS_PER_SESSION
        \<and> list_all (\<lambda>(i, b). main_body i b) (zip [1..<Suc MAIN_RUNS_PER_SESSION] bodies)
        \<and> trace (snd (runMainTasks w s)) =
            trace s @ Log (SchedulerStarting 1)
            # concat (map (\<lambda>(i, b). Log (RunningSequence 1 i MAIN_RUNS_PER_SESSION) # b
                                    @ main_pause MAIN_RUNS_PER_SESSION i)
                       (zip [1..<Suc MAIN_RUNS_PER_SESSION] bodies))
            @ [Log (SchedulerComplete 1)]"
    by (rule runMainTasks_runs)
  show "\<exists>bodies. length bodies = TOKEN_RUNS_PER_SESSION
        \<and> list_all token_body bodies
        \<and> trace (snd (runTokenDeploy w s)) =
            trace s @ Log (SchedulerStarting 2)
            # concat (map (\<lambda>(i, b). Log (RunningSequence 2 i TOKEN_RUNS_PER_SESSION) # b
                                    @ token_pause TOKEN_RUNS_PER_SESSION i)
                       (zip [1..<Suc TOKEN_RUNS_PER_SESSION] bodies))
            @ [Log (SchedulerComplete 2)]"
    by (rule runTokenDeploy_runs)
qed

subsection \<open>Errors of a task\<close>

lemma guarded_catches:
  assumes "run_task t w s = (Inl e, s')"
  shows "guarded w t s =
         (Inr (), s'\<lparr>trace := trace s' @ [ErrorLog (task_name t) (error_text e)]\<rparr>)"
  using assms by (simp add: guarded_def try_catch_def console_error_def emit_def)

lemma runMainTasks_schedule:
  "observe schedule_view (trace (snd (runMainTasks w s))) =
   observe schedule_view (trace s) @
   concat (map (\<lambda>j. Run j # map Started tasks) [1..<Suc MAIN_RUNS_PER_SESSION])"
  using runMainTasks_skeleton [of schedule_view w s]
  by (simp add: schedule_view_quiet schedule_main_run del: upt_Suc)

lemma runTokenDeploy_schedule:
  "observe schedule_view (trace (snd (runTokenDeploy w s))) =
   observe schedule_view (trace s) @
   concat (map (\<lambda>j. [Run j, Started Task_createToken]) [1..<Suc TOKEN_RUNS_PER_SESSION])"
  using runTokenDeploy_skeleton [of schedule_view w s]
  by (simp add: schedule_view_quiet schedule_token_run del: upt_Suc)

lemma runMainTasks_loop:
  "trace (snd (runMainTasks w s)) =
     trace (snd (main_sequences w MAIN_RUNS_PER_SESSION 1
                  (s\<lparr>trace := trace s @ [Log (SchedulerStarting 1)]\<rparr>)))
     @ [Log (SchedulerComplete 1)]"
proof -
  have "fst (main_sequences w MAIN_RUNS_PER_SESSION 1
               (s\<lparr>trace := trace s @ [Log (SchedulerStarting 1)]\<rparr>)) = Inr ()"
    using main_sequences_skeleton [of schedule_view w MAIN_RUNS_PER_SESSION 1]
    by (simp add: schedule_view_quiet)
  then show ?thesis
    by (simp add: runMainTasks_def console_log_def bind_emit bind_returns emit_def)
qed

lemma runTokenDeploy_loop:
  "trace (snd (runTokenDeploy w s)) =
     trace (snd (token_deploys w TOKEN_RUNS_PER_SESSION 1
                  (s\<lparr>trace := trace s @ [Log (SchedulerStarting 2)]\<rparr>)))
     @ [Log (SchedulerComplete 2)]"
proof -
  have "fst (token_deploys w TOKEN_RUNS_PER_SESSION 1
               (s\<lparr>trace := trace s @ [Log (SchedulerStarting 2)]\<rparr>)) = Inr ()"
    using token_deploys_skeleton [of schedule_view w TOKEN_RUNS_PER_SESSION 1]
    by (simp add: schedule_view_quiet)
  then show ?thesis
    by (simp add: runTokenDeploy_def console_log_def bind_emit bind_returns emit_def)
qed

lemma for_each_task_append:
  "for_each_task w (xs @ ys) s = for_each_task w ys (snd (for_each_task w xs s))"
  by (induction xs arbitrary: s)
     (simp_all add: return_def bind_guarded bind_emit console_log_def sleep_def)

lemma for_each_task_appends:
  "\<exists>es. trace (snd (for_each_task w ts s)) = trace s @ es
     \<and> observe schedule_view es = map Started ts"
  using for_each_task_pace [of w ts s] by blast

lemma main_sequences_appends:
  "\<exists>es. trace (snd (main_sequences w n i s)) = trace s @ es
     \<and> observe schedule_view es = concat (map (\<lambda>j. Run j # map Started tasks) [i..<Suc n])"
proof -
  obtain es where es: "trace (snd (main_sequences w n i s)) = trace s @ es"
    using main_sequences_runs [of n i w s] by blast
  have "observe schedule_view (trace (snd (main_sequences w n i s))) =
      observe schedule_view (trace s) @ concat (map (\<lambda>j. Run j # map Started tasks) [i..<Suc n])"
    using main_sequences_skeleton [of schedule_view w n i s]
    by (simp add: schedule_view_quiet schedule_main_run del: upt_Suc)
  with es show ?thesis by simp
qed

lemma token_deploys_appends:
  "\<exists>es. trace (snd (token_deploys w n i s)) = trace s @ es
     \<and> observe schedule_view es =
         concat (map (\<lambda>j. [Run j, Started Task_createToken]) [i..<Suc n])"
proof -
  obtain es where es: "trace (snd (token_deploys w n i s)) = trace s @ es"
    using token_deploys_runs [of n i w s] by blast
  have "observe schedule_view (trace (snd (token_deploys w n i s))) =
      observe schedule_view (trace s) @
      concat (map (\<lambda>j. [Run j, Started Task_createToken]) [i..<Suc n])"
    using token_deploys_skeleton [of schedule_view w n i s]
    by (simp add: schedule_view_quiet schedule_token_run del: upt_Suc)
  with es show ?thesis by simp
qed

lemma schedule_view_main_pause: "observe schedule_view (main_pause n i) = []"
  by (simp add: main_pause_def)

lemma schedule_view_token_pause: "observe schedule_view (token_pause n i) = []"
  by (simp add: token_pause_def)

lemma main_sequences_step:
  assumes "i \<le> n"
    and "s5 = snd (for_each_task w tasks
                    (s\<lparr>trace := trace s @ [Log (RunningSequence 1 i n)], tick := Suc (tick s)\<rparr>))"
  shows "main_sequences w n i s =
         main_sequences w n (Suc i)
           (s5\<lparr>tick := Suc (tick s5),
               trace := trace s5 @
                 Log (SequenceFinished i (clock w (tick s5) - clock w (tick s))) # main_pause n i\<rparr>)"
  using assms(1) unfolding assms(2)
  by (subst main_sequences.simps)
     (simp add: console_log_def sleep_def Date_now_def bind_emit bind_ask bind_if bind_assoc
        bind_return bind_for_each_task main_pause_def)

lemma token_deploys_step:
  assumes "i \<le> n"
    and "s2 = snd (guarded w Task_createToken (s\<lparr>trace := trace s @ [Log (RunningSequence 2 i n)]\<rparr>))"
  shows "token_deploys w n i s =
         token_deploys w n (Suc i) (s2\<lparr>trace := trace s2 @ token_pause n i\<rparr>)"
  using assms(1) unfolding assms(2)
  by (subst token_deploys.simps)
     (simp add: console_log_def sleep_def bind_emit bind_if bind_assoc bind_return
        bind_guarded token_pause_def)

text \<open>
  A task of iteration \<open>i\<close> of the main loop throws: the error line follows at once, then
  the tasks after it and the iterations after \<open>i\<close>.
\<close>

lemma main_sequences_after_error:
  assumes "i \<le> n" and "tasks = pre @ t # post"
    and "run_task t w
           (snd (for_each_task w pre
                  (s\<lparr>trace := trace s @ [Log (RunningSequence 1 i n)], tick := Suc (tick s)\<rparr>))) =
         (Inl e, s')"
  shows "\<exists>rest. trace (snd (main_sequences w n i s)) =
            trace s' @ ErrorLog (task_name t) (error_text e) # rest
         \<and> observe schedule_view rest =
            map Started post @ concat (map (\<lambda>j. Run j # map Started tasks) [Suc i..<Suc n])"
proof -
  define s1 where "s1 = s\<lparr>trace := trace s @ [Log (RunningSequence 1 i n)], tick := Suc (tick s)\<rparr>"
  define s2 where "s2 = snd (for_each_task w pre s1)"
  define s4 where "s4 = s'\<lparr>trace := trace s' @
    [ErrorLog (task_name t) (error_text e),
     Log (WaitingBetweenTasks (DELAY_BETWEEN_TASKS_MS div 1000)), Sleep DELAY_BETWEEN_TASKS_MS]\<rparr>"
  define s5 where "s5 = snd (for_each_task w tasks s1)"
  define s6 where "s6 = s5\<lparr>tick := Suc (tick s5),
     trace := trace s5 @
       Log (SequenceFinished i (clock w (tick s5) - clock w (tick s))) # main_pause n i\<rparr>"
  from assms(3) have "guarded w t s2 =
      (Inr (), s'\<lparr>trace := trace s' @ [ErrorLog (task_name t) (error_text e)]\<rparr>)"
    unfolding s2_def s1_def by (rule guarded_catches)
  then have "for_each_task w (t # post) s2 = for_each_task w post s4"
    by (simp add: bind_guarded bind_emit console_log_def sleep_def s4_def)
  then have s5: "s5 = snd (for_each_task w post s4)"
    by (simp add: s5_def assms(2) for_each_task_append s2_def)
  obtain es where es: "trace s5 = trace s4 @ es" "observe schedule_view es = map Started post"
    unfolding s5 using for_each_task_appends by blast
  have step: "main_sequences w n i s = main_sequences w n (Suc i) s6"
    unfolding s6_def using assms(1) by (rule main_sequences_step) (simp add: s5_def s1_def)
  obtain es' where es': "trace (snd (main_sequences w n (Suc i) s6)) = trace s6 @ es'"
    "observe schedule_view es' = concat (map (\<lambda>j. Run j # map Started tasks) [Suc i..<Suc n])"
    using main_sequences_appends by blast
  define rest where "rest =
    [Log (WaitingBetweenTasks (DELAY_BETWEEN_TASKS_MS div 1000)), Sleep DELAY_BETWEEN_TASKS_MS]
    @ es @ Log (SequenceFinished i (clock w (tick s5) - clock w (tick s))) # main_pause n i @ es'"
  have "trace s6 @ es' = trace s' @ ErrorLog (task_name t) (error_text e) # rest"
    by (simp add: s6_def es(1) s4_def rest_def)
  with step es'(1) have "trace (snd (main_sequences w n i s)) =
      trace s' @ ErrorLog (task_name t) (error_text e) # rest"
    by simp
  moreover have "observe schedule_view rest =
      map Started post @ concat (map (\<lambda>j. Run j # map Started tasks) [Suc i..<Suc n])"
    by (simp add: rest_def es(2) es'(2) schedule_view_main_pause del: upt_Suc)
  ultimately show ?thesis by blast
qed

lemma token_deploys_after_error:
  assumes "i \<le> n"
    and "run_task Task_createToken w (s\<lparr>trace := trace s @ [Log (RunningSequence 2 i n)]\<rparr>) =
         (Inl e, s')"
  shows "\<exists>rest. trace (snd (token_deploys w n i s)) =
            trace s' @ ErrorLog (task_name Task_createToken) (error_text e) # rest
         \<and> observe schedule_view rest =
            concat (map (\<lambda>j. [Run j, Started Task_createToken]) [Suc i..<Suc n])"
proof -
  define s2 where "s2 = s'\<lparr>trace := trace s' @ [ErrorLog (task_name Task_createToken) (error_text e)]\<rparr>"
  define s3 where "s3 = s2\<lparr>trace := trace s2 @ token_pause n i\<rparr>"
  from assms(2) have "guarded w Task_createToken (s\<lparr>trace := trace s @ [Log (RunningSequence 2 i n)]\<rparr>) =
      (Inr (), s2)"
    unfolding s2_def by (rule guarded_catches)
  then have step: "token_deploys w n i s = token_deploys w n (Suc i) s3"
    unfolding s3_def using assms(1) by (intro token_deploys_step) simp_all
  obtain es' where es': "trace (snd (token_deploys w n (Suc i) s3)) = trace s3 @ es'"
    "observe schedule_view es' =
       concat (map (\<lambda>j. [Run j, Started Task_createToken]) [Suc i..<Suc n])"
    using token_deploys_appends by blast
  have "trace s3 @ es' =
      trace s' @ ErrorLog (task_name Task_createToken) (error_text e) # token_pause n i @ es'"
    by (simp add: s3_def s2_def)
  with step es'(1) have "trace (snd (token_deploys w n i s)) =
      trace s' @ ErrorLog (task_name Task_createToken) (error_text e) # token_pause n i @ es'"
    by simp
  moreover have "observe schedule_view (token_pause n i @ es') =
      concat (map (\<lambda>j. [Run j, Started Task_createToken]) [Suc i..<Suc n])"
    by (simp add: es'(2) schedule_view_token_pause del: upt_Suc)
  ultimately show ?thesis by blast
qed

text \<open>
  Claim C2. A task that throws is caught by its \<open>try\<close> block, which prints the error and
  goes on. The sub-scheduler itself never throws, and in every environment, whatever its
  tasks throw, it starts every task of every iteration, in order, each once. Where a task
  of iteration \<open>i\<close> throws, the trace of the loop goes on with the error line, printed right
  after the last event of the task, and after that line the remaining tasks of iteration
  \<open>i\<close> start, then every iteration after \<open>i\<close> with all its tasks. Here
  \<open>main_sequences w n i\<close> is the loop of \<open>runMainTasks\<close> and \<open>token_deploys w n i\<close> the
  loop of \<open>runTokenDeploy\<close>, from iteration \<open>i\<close> on (the trace of a sub-scheduler is its
  first line, the trace of its loop from iteration 1 and its last line), and the task
  \<open>u\<close> of the list, after the tasks \<open>pre\<close> and before the tasks \<open>post\<close>, starts in the
  state the header of iteration \<open>i\<close> and the tasks \<open>pre\<close> have left.
\<close>

theorem task_errors_are_caught_and_logged:
  "(run_task t w s = (Inl e, s') \<longrightarrow>
      guarded w t s = (Inr (), s'\<lparr>trace := trace s' @ [ErrorLog (task_name t) (error_text e)]\<rparr>))
   \<and> fst (runMainTasks w s) = Inr ()
   \<and> fst (runTokenDeploy w s) = Inr ()
   \<and> observe schedule_view (trace (snd (runMainTasks w s))) =
     observe schedule_view (trace (snd (runMainTasks w' s)))
   \<and> observe schedule_view (trace (snd (runTokenDeploy w s))) =
     observe schedule_view (trace (snd (runTokenDeploy w' s)))
   \<and> observe schedule_view (trace (snd (runMainTasks w s))) =
     observe schedule_view (trace s) @
     concat (map (\<lambda>j. Run j # map Started tasks) [1..<Suc MAIN_RUNS_PER_SESSION])
   \<and> observe schedule_view (trace (snd (runTokenDeploy w s))) =
     observe schedule_view (trace s) @
     concat (map (\<lambda>j. [Run j, Started Task_createToken]) [1..<Suc TOKEN_RUNS_PER_SESSION])
   \<and> trace (snd (runMainTasks w s)) =
     trace (snd (main_sequences w MAIN_RUNS_PER_SESSION 1
                  (s\<lparr>trace := trace s @ [Log (SchedulerStarting 1)]\<rparr>)))
     @ [Log (SchedulerComplete 1)]
   \<and> trace (snd (runTokenDeploy w s)) =
     trace (snd (token_deploys w TOKEN_RUNS_PER_SESSION 1
                  (s\<lparr>trace := trace s @ [Log (SchedulerStarting 2)]\<rparr>)))
     @ [Log (SchedulerComplete 2)]
   \<and> (i \<le> n \<and> tasks = pre @ u # post
      \<and> run_task u w
           (snd (for_each_task w pre
                  (s\<lparr>trace := trace s @ [Log (RunningSequence 1 i n)], tick := Suc (tick s)\<rparr>))) =
         (Inl e1, s1) \<longrightarrow>
      (\<exists>rest. trace (snd (main_sequences w n i s)) =
                trace s1 @ ErrorLog (task_name u) (error_text e1) # rest
            \<and> observe schedule_view rest =
                map Started post @
                concat (map (\<lambda>j. Run j # map Started tasks) [Suc i..<Suc n])))
   \<and> (i \<le> n
      \<and> run_task Task_createToken w (s\<lparr>trace := trace s @ [Log (RunningSequence 2 i n)]\<rparr>) =
         (Inl e2, s2) \<longrightarrow>
      (\<exists>rest. trace (snd (token_deploys w n i s)) =
                trace s2 @ ErrorLog (task_name Task_createToken) (error_text e2) # rest
            \<and> observe schedule_view rest =
                concat (map (\<lambda>j. [Run j, Started Task_createToken]) [Suc i..<Suc n])))"
proof (intro conjI)
  show "run_task t w s = (Inl e, s') \<longrightarrow>
      guarded w t s = (Inr (), s'\<lparr>trace := trace s' @ [ErrorLog (task_name t) (error_text e)]\<rparr>)"
    by (simp add: guarded_catches)
  show "fst (runMainTasks w s) = Inr ()"
    using runMainTasks_skeleton [of schedule_view w s] by (simp add: schedule_view_quiet)
  show "fst (runTokenDeploy w s) = Inr ()"
    using runTokenDeploy_skeleton [of schedule_view w s] by (simp add: schedule_view_quiet)
  show "observe schedule_view (trace (snd (runMainTasks w s))) =
     observe schedule_view (trace (snd (runMainTasks w' s)))"
    by (simp only: runMainTasks_schedule)
  show "observe schedule_view (trace (snd (runTokenDeploy w s))) =
     observe schedule_view (trace (snd (runTokenDeploy w' s)))"
    by (simp only: runTokenDeploy_schedule)
  show "observe schedule_view (trace (snd (runMainTasks w s))) =
     observe schedule_view (trace s) @
     concat (map (\<lambda>j. Run j # map Started tasks) [1..<Suc MAIN_RUNS_PER_SESSION])"
    by (rule runMainTasks_schedule)
  show "observe schedule_view (trace (snd (runTokenDeploy w s))) =
     observe schedule_view (trace s) @
     concat (map (\<lambda>j. [Run j, Started Task_createToken]) [1..<Suc TOKEN_RUNS_PER_SESSION])"
    by (rule runTokenDeploy_schedule)
  show "trace (snd (runMainTasks w s)) =
     trace (snd (main_sequences w MAIN_RUNS_PER_SESSION 1
                  (s\<lparr>trace := trace s @ [Log (SchedulerStarting 1)]\<rparr>)))
     @ [Log (SchedulerComplete 1)]"
    by (rule runMainTasks_loop)
  show "trace (snd (runTokenDeploy w s)) =
     trace (snd (token_deploys w TOKEN_RUNS_PER_SESSION 1
                  (s\<lparr>trace := trace s @ [Log (SchedulerStarting 2)]\<rparr>)))
     @ [Log (SchedulerComplete 2)]"
    by (rule runTokenDeploy_loop)
  show "i \<le> n \<and> tasks = pre @ u # post
      \<and> run_task u w
           (snd (for_each_task w pre
                  (s\<lparr>trace := trace s @ [Log (RunningSequence 1 i n)], tick := Suc (tick s)\<rparr>))) =
         (Inl e1, s1) \<longrightarrow>
      (\<exists>rest. trace (snd (main_sequences w n i s)) =
                trace s1 @ ErrorLog (task_name u) (error_text e1) # rest
            \<and> observe schedule_view rest =
                map Started post @
                concat (map (\<lambda>j. Run j # map Started tasks) [Suc i..<Suc n]))"
    using main_sequences_after_error [of i n pre u post w s e1 s1] by blast
  show "i \<le> n
      \<and> run_task Task_createToken w (s\<lparr>trace := trace s @ [Log (RunningSequence 2 i n)]\<rparr>) =
         (Inl e2, s2) \<longrightarrow>
      (\<exists>rest. trace (snd (token_deploys w n i s)) =
                trace s2 @ ErrorLog (task_name Task_createToken) (error_text e2) # rest
            \<and> observe schedule_view rest =
                concat (map (\<lambda>j. [Run j, Started Task_createToken]) [Suc i..<Suc n]))"
    using token_deploys_after_error [of i n w s e2 s2] by blast
qed

lemma mintNft_offline:
  "run_task Task_mintNft offline_env initial =
     (Inl rpc_down,
      \<lparr>tick = 1,
       trace = [Log (TaskBanner Task_mintNft),
                Call (SendTransaction NFT_CONTRACT_ADDRESS NFT_MINT_DATA HIGH_GAS_PRICE)]\<rparr>)"
  by (simp add: task_mintNft_def console_log_def sendTransaction_def bind_emit bind_client_call
      offline_env_def initial_def)

lemma mintNft_second_offline:
  "run_task Task_mintNft offline_env
     (snd (for_each_task offline_env [Task_deployContract]
            (initial\<lparr>trace := trace initial @ [Log (RunningSequence 1 1 2)],
                     tick := Suc (tick initial)\<rparr>))) =
   (Inl rpc_down,
    \<lparr>tick = 3,
     trace = [Log (RunningSequence 1 1 2),
              Log (TaskBanner Task_deployContract),
              Call (DeployContract counterAbi counterBytecode [] HIGH_GAS_PRICE),
              ErrorLog ''task_deployContract'' (Text ''HTTP request failed.''),
              Log (WaitingBetweenTasks 10), Sleep 10000,
              Log (TaskBanner Task_mintNft),
              Call (SendTransaction NFT_CONTRACT_ADDRESS NFT_MINT_DATA HIGH_GAS_PRICE)]\<rparr>)"
proof -
  define s0 where "s0 = \<lparr>tick = 1, trace = [Log (RunningSequence 1 1 2)]\<rparr>"
  have "run_task Task_deployContract offline_env s0 =
      (Inl rpc_down,
       \<lparr>tick = 2,
        trace = [Log (RunningSequence 1 1 2), Log (TaskBanner Task_deployContract),
                 Call (DeployContract counterAbi counterBytecode [] HIGH_GAS_PRICE)]\<rparr>)"
    by (simp add: task_deployContract_def console_log_def deployContract_def bind_emit
        bind_client_call offline_env_def s0_def)
  then have "guarded offline_env Task_deployContract s0 =
      (Inr (),
       \<lparr>tick = 2,
        trace = [Log (RunningSequence 1 1 2), Log (TaskBanner Task_deployContract),
                 Call (DeployContract counterAbi counterBytecode [] HIGH_GAS_PRICE),
                 ErrorLog ''task_deployContract'' (Text ''HTTP request failed.'')]\<rparr>)"
    by (simp add: guarded_catches error_text_def rpc_down_def)
  then have "snd (for_each_task offline_env [Task_deployContract] s0) =
      \<lparr>tick = 2,
        trace = [Log (RunningSequence 1 1 2), Log (TaskBanner Task_deployContract),
                 Call (DeployContract counterAbi counterBytecode [] HIGH_GAS_PRICE),
                 ErrorLog ''task_deployContract'' (Text ''HTTP request failed.''),
                 Log (WaitingBetweenTasks 10), Sleep 10000]\<rparr>"
    by (simp add: bind_guarded bind_emit console_log_def sleep_def return_def
        DELAY_BETWEEN_TASKS_MS_def)
  then show ?thesis
    by (simp add: task_mintNft_def console_log_def sendTransaction_def bind_emit bind_client_call
        offline_env_def initial_def s0_def)
qed

lemma createToken_offline:
  "fst (run_task Task_createToken offline_env
         (initial\<lparr>trace := trace initial @ [Log (RunningSequence 2 1 2)]\<rparr>)) = Inl rpc_down"
  by (simp add: task_createToken_def Let_def prims Date_now_def Math_floor_random_times_def
      bind_emit bind_ask bind_client_call offline_env_def)

theorem task_errors_are_caught_and_logged_witness:
  "run_task Task_mintNft offline_env initial =
     (Inl rpc_down,
      \<lparr>tick = 1,
       trace = [Log (TaskBanner Task_mintNft),
                Call (SendTransaction NFT_CONTRACT_ADDRESS NFT_MINT_DATA HIGH_GAS_PRICE)]\<rparr>)
   \<and> guarded offline_env Task_mintNft initial =
     (Inr (),
      \<lparr>tick = 1,
       trace = [Log (TaskBanner Task_mintNft),
                Call (SendTransaction NFT_CONTRACT_ADDRESS NFT_MINT_DATA HIGH_GAS_PRICE),
                ErrorLog ''task_mintNft'' (Text ''HTTP request failed.'')]\<rparr>)
   \<and> fst (runMainTasks offline_env initial) = Inr ()
   \<and> observe schedule_view (trace (snd (runMainTasks offline_env initial))) =
     observe schedule_view (trace (snd (runMainTasks mock_env initial)))
   \<and> (\<exists>rest. trace (snd (main_sequences offline_env 2 1 initial)) =
        [Log (RunningSequence 1 1 2),
         Log (TaskBanner Task_deployContract),
         Call (DeployContract counterAbi counterBytecode [] HIGH_GAS_PRICE),
         ErrorLog ''task_deployContract'' (Text ''HTTP request failed.''),
         Log (WaitingBetweenTasks 10), Sleep 10000,
         Log (TaskBanner Task_mintNft),
         Call (SendTransaction NFT_CONTRACT_ADDRESS NFT_MINT_DATA HIGH_GAS_PRICE),
         ErrorLog ''task_mintNft'' (Text ''HTTP request failed.'')] @ rest
      \<and> observe schedule_view rest =
        [Started Task_claimAndBurn, Started Task_swapTokens, Started Task_createMintpadNFT,
         Run 2, Started Task_deployContract, Started Task_mintNft, Started Task_claimAndBurn,
         Started Task_swapTokens, Started Task_createMintpadNFT])
   \<and> fst (run_task Task_createToken offline_env
         (initial\<lparr>trace := trace initial @ [Log (RunningSequence 2 1 2)]\<rparr>)) = Inl rpc_down
   \<and> (\<exists>rest. trace (snd (token_deploys offline_env 2 1 initial)) =
        trace (snd (run_task Task_createToken offline_env
                     (initial\<lparr>trace := trace initial @ [Log (RunningSequence 2 1 2)]\<rparr>)))
        @ ErrorLog ''task_createToken'' (Text ''HTTP request failed.'') # rest
      \<and> observe schedule_view rest = [Run 2, Started Task_createToken])"
proof -
  have two: "[Suc (Suc 0)..<3] = [2]"
    by (simp add: upt_rec)
  have token: "run_task Task_createToken offline_env
         (initial\<lparr>trace := trace initial @ [Log (RunningSequence 2 1 2)]\<rparr>) =
       (Inl rpc_down, snd (run_task Task_createToken offline_env
         (initial\<lparr>trace := trace initial @ [Log (RunningSequence 2 1 2)]\<rparr>)))"
    using createToken_offline by (simp add: prod_eq_iff)
  note offline = task_errors_are_caught_and_logged
      [where t = Task_mintNft and w = offline_env and s = initial and e = rpc_down
         and s' = "\<lparr>tick = 1,
           trace = [Log (TaskBanner Task_mintNft),
                    Call (SendTransaction NFT_CONTRACT_ADDRESS NFT_MINT_DATA HIGH_GAS_PRICE)]\<rparr>"
         and w' = mock_env and i = 1 and n = 2
         and pre = "[Task_deployContract]" and u = Task_mintNft
         and post = "[Task_claimAndBurn, Task_swapTokens, Task_createMintpadNFT]"
         and ?e1.0 = rpc_down
         and ?s1.0 = "\<lparr>tick = 3,
           trace = [Log (RunningSequence 1 1 2),
              Log (TaskBanner Task_deployContract),
              Call (DeployContract counterAbi counterBytecode [] HIGH_GAS_PRICE),
              ErrorLog ''task_deployContract'' (Text ''HTTP request failed.''),
              Log (WaitingBetweenTasks 10), Sleep 10000,
              Log (TaskBanner Task_mintNft),
              Call (SendTransaction NFT_CONTRACT_ADDRESS NFT_MINT_DATA HIGH_GAS_PRICE)]\<rparr>"
         and ?e2.0 = rpc_down
         and ?s2.0 = "snd (run_task Task_createToken offline_env
                     (initial\<lparr>trace := trace initial @ [Log (RunningSequence 2 1 2)]\<rparr>))"]
  from offline [THEN conjunct1] mintNft_offline
  have "guarded offline_env Task_mintNft initial =
     (Inr (),
      \<lparr>tick = 1,
       trace = [Log (TaskBanner Task_mintNft),
                Call (SendTransaction NFT_CONTRACT_ADDRESS NFT_MINT_DATA HIGH_GAS_PRICE),
                ErrorLog ''task_mintNft'' (Text ''HTTP request failed.'')]\<rparr>)"
    by (simp add: error_text_def rpc_down_def)
  moreover note mintNft_offline
  moreover note offline [THEN conjunct2, THEN conjunct1]
  moreover note offline [THEN conjunct2, THEN conjunct2, THEN conjunct2, THEN conjunct1]
  moreover
  from offline [THEN conjunct2, THEN conjunct2, THEN conjunct2, THEN conjunct2, THEN conjunct2, THEN conjunct2, THEN conjunct2, THEN conjunct2, THEN conjunct2, THEN conjunct1] mintNft_second_offline
  have "\<exists>rest. trace (snd (main_sequences offline_env 2 1 initial)) =
        [Log (RunningSequence 1 1 2),
         Log (TaskBanner Task_deployContract),
         Call (DeployContract counterAbi counterBytecode [] HIGH_GAS_PRICE),
         ErrorLog ''task_deployContract'' (Text ''HTTP request failed.''),
         Log (WaitingBetweenTasks 10), Sleep 10000,
         Log (TaskBanner Task_mintNft),
         Call (SendTransaction NFT_CONTRACT_ADDRESS NFT_MINT_DATA HIGH_GAS_PRICE),
         ErrorLog ''task_mintNft'' (Text ''HTTP request failed.'')] @ rest
      \<and> observe schedule_view rest =
        [Started Task_claimAndBurn, Started Task_swapTokens, Started Task_createMintpadNFT,
         Run 2, Started Task_deployContract, Started Task_mintNft, Started Task_claimAndBurn,
         Started Task_swapTokens, Started Task_createMintpadNFT]"
    by (simp add: error_text_def rpc_down_def tasks_def two del: upt_Suc)
  moreover note createToken_offline
  moreover
  from offline [THEN conjunct2, THEN conjunct2, THEN conjunct2, THEN conjunct2, THEN conjunct2, THEN conjunct2, THEN conjunct2, THEN conjunct2, THEN conjunct2, THEN conjunct2] token
  have "\<exists>rest. trace (snd (token_deploys offline_env 2 1 initial)) =
        trace (snd (run_task Task_createToken offline_env
                     (initial\<lparr>trace := trace initial @ [Log (RunningSequence 2 1 2)]\<rparr>)))
        @ ErrorLog ''task_createToken'' (Text ''HTTP request failed.'') # rest
      \<and> observe schedule_view rest = [Run 2, Started Task_createToken]"
    by (simp add: error_text_def rpc_down_def two del: upt_Suc)
  ultimately show ?thesis
    by blast
qed

subsection \<open>The gas price of client calls\<close>

lemma deviating_quiet: "task_event e \<Longrightarrow> deviating e = None"
  by (cases e) (simp_all add: priced_def)

lemma set_observe_deviating: "set (observe deviating es) = {c. Call c \<in> set es \<and> \<not> priced c}"
proof (induction es)
  case Nil
  show ?case by simp
next
  case (Cons e es)
  then show ?case by (cases e) auto
qed

lemma new_calls_priced:
  assumes "observe deviating after = observe deviating before"
    and "Call c \<in> set after" and "Call c \<notin> set before"
  shows "priced c"
proof (rule ccontr)
  assume "\<not> priced c"
  with assms(2) have "c \<in> set (observe deviating after)"
    by (simp add: set_observe_deviating)
  with assms(1) have "c \<in> set (observe deviating before)"
    by simp
  with assms(3) show False
    by (simp add: set_observe_deviating)
qed

lemma run_task_deviating:
  "observe deviating (trace (snd (run_task t w s))) = observe deviating (trace s)"
proof -
  obtain es where "trace (snd (run_task t w s)) = trace s @ Log (TaskBanner t) # es"
    "list_all task_event es"
    using run_task_shape by blast
  then show ?thesis
    using observe_quiet [of deviating es] by (simp add: deviating_quiet)
qed

lemma runMainTasks_deviating:
  "observe deviating (trace (snd (runMainTasks w s))) = observe deviating (trace s)"
proof -
  have "observe deviating (main_run n j) = []" for n j
    by (simp add: main_run_def tasks_def task_slot_def)
  then show ?thesis
    using runMainTasks_skeleton [of deviating w s] by (simp add: deviating_quiet)
qed

lemma runTokenDeploy_deviating:
  "observe deviating (trace (snd (runTokenDeploy w s))) = observe deviating (trace s)"
proof -
  have "observe deviating (token_run n j) = []" for n j
    by (simp add: token_run_def)
  then show ?thesis
    using runTokenDeploy_skeleton [of deviating w s] by (simp add: deviating_quiet)
qed

text \<open>
  Claim C6, as amended. Every call a task or a sub-scheduler makes to the client carries
  the fixed gas price when it submits a transaction (\<open>sendTransaction\<close>,
  \<open>writeContract\<close>, \<open>deployContract\<close>) and no gas price when it is a
  \<open>readContract\<close> or a \<open>waitForTransactionReceipt\<close>.
\<close>

theorem gas_price_on_submissions_only:
  assumes "Call c \<in> set (trace (snd (run_task t w s)))
           \<or> Call c \<in> set (trace (snd (runMainTasks w s)))
           \<or> Call c \<in> set (trace (snd (runTokenDeploy w s)))"
    and "Call c \<notin> set (trace s)"
  shows "gasPrice_of c = (if submits_transaction c then Some HIGH_GAS_PRICE else None)"
proof -
  from assms(1) have "priced c"
  proof (elim disjE)
    assume "Call c \<in> set (trace (snd (run_task t w s)))"
    with run_task_deviating show ?thesis
      using assms(2) by (rule new_calls_priced)
  next
    assume "Call c \<in> set (trace (snd (runMainTasks w s)))"
    with runMainTasks_deviating show ?thesis
      using assms(2) by (rule new_calls_priced)
  next
    assume "Call c \<in> set (trace (snd (runTokenDeploy w s)))"
    with runTokenDeploy_deviating show ?thesis
      using assms(2) by (rule new_calls_priced)
  qed
  then show ?thesis by (simp add: priced_def)
qed

lemma set_observe_call_of: "set (observe call_of es) = {c. Call c \<in> set es}"
proof (induction es)
  case Nil
  show ?case by simp
next
  case (Cons e es)
  then show ?case by (cases e) auto
qed

lemma swapTokens_mock:
  "observe call_of (trace (snd (task_swapTokens mock_env initial))) =
     [allowance_call mock_env, approve_call, WaitForTransactionReceipt ''0xe0'',
      swap_call mock_env 1700000600, WaitForTransactionReceipt ''0xe0'']"
  by (simp add: task_swapTokens_def console_log_def readContract_def writeContract_def
      waitForTransactionReceipt_def Date_now_def bind_emit bind_client_call bind_ask bind_if
      bind_assoc emit_def mock_env_def initial_def amountInWei_def parseUnits_def
      allowance_call_def approve_call_def swap_call_def mock_receipt_def)

theorem gas_price_on_submissions_only_witness:
  "Call (allowance_call mock_env) \<in> set (trace (snd (run_task Task_swapTokens mock_env initial)))
   \<and> Call (allowance_call mock_env) \<notin> set (trace initial)
   \<and> gasPrice_of (allowance_call mock_env) = None"
proof -
  have "allowance_call mock_env \<in> set (observe call_of (trace (snd (run_task Task_swapTokens mock_env initial))))"
    by (simp add: swapTokens_mock)
  then have here: "Call (allowance_call mock_env) \<in> set (trace (snd (run_task Task_swapTokens mock_env initial)))"
    by (simp add: set_observe_call_of)
  have fresh: "Call (allowance_call mock_env) \<notin> set (trace initial)"
    by (simp add: initial_def)
  from gas_price_on_submissions_only [of "allowance_call mock_env" Task_swapTokens mock_env initial, OF _ fresh] here
  have "gasPrice_of (allowance_call mock_env) = None"
    by (simp add: allowance_call_def)
  with here fresh show ?thesis by simp
qed

text \<open>
  Claim C6 as stated fails: of the five calls \<open>task_swapTokens\<close> makes to a client that
  always succeeds, the read of the allowance and the two waits for a receipt carry no
  gas price.
\<close>

theorem read_and_wait_carry_no_gas_price:
  "map gasPrice_of (observe call_of (trace (snd (run_task Task_swapTokens mock_env initial)))) =
     [None, Some HIGH_GAS_PRICE, None, Some HIGH_GAS_PRICE, None]"
  by (simp add: swapTokens_mock allowance_call_def approve_call_def swap_call_def)

subsection \<open>The approval of the swap\<close>

lemmas run = bind_emit bind_client_call bind_if bind_assoc bind_ask bind_return emit_def
  client_call_def

lemma swapTokens_approves:
  assumes "readContract_reply w (tick s) = Inr allowance" and "allowance < amountInWei"
  shows "\<exists>rest. calls_made (task_swapTokens w) s = allowance_call w # approve_call # rest"
  using assms
  by (simp add: calls_made_def task_swapTokens_def prims run allowance_call_def approve_call_def
      split: sum.splits)

lemma swapTokens_swaps_directly:
  assumes "readContract_reply w (tick s) = Inr allowance" and "\<not> allowance < amountInWei"
  shows "\<exists>rest. calls_made (task_swapTokens w) s =
           allowance_call w # swap_call w (clock w (Suc (tick s)) div 1000 + 600) # rest
         \<and> list_all (\<lambda>c. \<not> submits_transaction c) rest"
  using assms
  by (simp add: calls_made_def task_swapTokens_def prims run allowance_call_def swap_call_def
      split: sum.splits)

text \<open>
  Claim C9. Once \<open>task_swapTokens\<close> has read the allowance, it submits the approval (of
  the swap router, for \<open>maxUint256\<close>) exactly when the allowance is below the swap amount
  of \<open>10 ^ 18\<close> wei, and then as its next call; otherwise its next call is the swap, and
  no later call submits a transaction.
\<close>

theorem approval_iff_allowance_below_amount:
  assumes "readContract_reply w (tick s) = Inr allowance"
  shows "amountInWei = 10 ^ 18
    \<and> (approve_call \<in> set (calls_made (task_swapTokens w) s) \<longleftrightarrow> allowance < amountInWei)
    \<and> (allowance < amountInWei \<longrightarrow>
         (\<exists>rest. calls_made (task_swapTokens w) s = allowance_call w # approve_call # rest))
    \<and> (\<not> allowance < amountInWei \<longrightarrow>
         (\<exists>rest. calls_made (task_swapTokens w) s =
             allowance_call w # swap_call w (clock w (Suc (tick s)) div 1000 + 600) # rest
           \<and> list_all (\<lambda>c. \<not> submits_transaction c) rest))"
proof (intro conjI impI)
  show "amountInWei = 10 ^ 18"
    by (simp add: amountInWei_def parseUnits_def)
next
  assume "allowance < amountInWei"
  with assms show "\<exists>rest. calls_made (task_swapTokens w) s = allowance_call w # approve_call # rest"
    by (rule swapTokens_approves)
next
  assume "\<not> allowance < amountInWei"
  with assms show "\<exists>rest. calls_made (task_swapTokens w) s =
             allowance_call w # swap_call w (clock w (Suc (tick s)) div 1000 + 600) # rest
           \<and> list_all (\<lambda>c. \<not> submits_transaction c) rest"
    by (rule swapTokens_swaps_directly)
next
  show "approve_call \<in> set (calls_made (task_swapTokens w) s) \<longleftrightarrow> allowance < amountInWei"
  proof (cases "allowance < amountInWei")
    case True
    with swapTokens_approves [OF assms] show ?thesis by auto
  next
    case False
    from swapTokens_swaps_directly [OF assms False]
    obtain rest where rest: "calls_made (task_swapTokens w) s =
        allowance_call w # swap_call w (clock w (Suc (tick s)) div 1000 + 600) # rest"
      "list_all (\<lambda>c. \<not> submits_transaction c) rest"
      by blast
    have "approve_call \<notin> set rest"
      using rest(2) by (auto simp: list_all_iff approve_call_def)
    with rest(1) False show ?thesis
      by (simp add: approve_call_def allowance_call_def swap_call_def)
  qed
qed

theorem approval_iff_allowance_below_amount_witness:
  "readContract_reply mock_env (tick initial) = Inr 0
   \<and> approve_call \<in> set (calls_made (task_swapTokens mock_env) initial)
   \<and> readContract_reply approved_env (tick initial) = Inr (5 * 10 ^ 18)
   \<and> approve_call \<notin> set (calls_made (task_swapTokens approved_env) initial)"
proof -
  have low: "readContract_reply mock_env (tick initial) = Inr 0"
    by (simp add: mock_env_def)
  have high: "readContract_reply approved_env (tick initial) = Inr (5 * 10 ^ 18)"
    by (simp add: approved_env_def)
  from approval_iff_allowance_below_amount [OF low]
  have "approve_call \<in> set (calls_made (task_swapTokens mock_env) initial)"
    by simp
  moreover from approval_iff_allowance_below_amount [OF high]
  have "approve_call \<notin> set (calls_made (task_swapTokens approved_env) initial)"
    by simp
  ultimately show ?thesis using low high by simp
qed

subsection \<open>The payload of the Mintpad task\<close>

lemma length_TEMPLATE_DATA: "length TEMPLATE_DATA = 1483"
  by (simp add: TEMPLATE_DATA_def)

lemma indexOf_address: "indexOf TEMPLATE_DATA YOUR_ADDRESS_IN_DATA = 74"
  by (simp add: indexOf_def TEMPLATE_DATA_def YOUR_ADDRESS_IN_DATA_def)

lemma length_address: "length YOUR_ADDRESS_IN_DATA = 40"
  by (simp add: YOUR_ADDRESS_IN_DATA_def)

lemma salt_indices: "saltStartIndex = 114 \<and> saltEndIndex = 178"
  by (simp add: saltStartIndex_def saltEndIndex_def indexOf_address length_address)

lemma length_toString_hex: "length (toString_hex bs) = 2 * length bs"
  by (induction bs) (simp_all add: toString_hex_def hex_of_byte_def)

lemma indexOf_at_first:
  "indexOf_at i str pat = int r \<Longrightarrow>
     i \<le> r \<and> prefix pat (drop (r - i) str) \<and> (\<forall>j < r - i. \<not> prefix pat (drop j str))"
proof (induction i str pat rule: indexOf_at.induct)
  case (1 i pat)
  then show ?case by (simp split: if_splits)
next
  case (2 i c cs pat)
  show ?case
  proof (cases "prefix pat (c # cs)")
    case True
    with 2 show ?thesis by simp
  next
    case False
    with 2 have "indexOf_at (Suc i) cs pat = int r" by simp
    from 2(1) [OF False this]
    have IH: "Suc i \<le> r" "prefix pat (drop (r - Suc i) cs)"
      "\<forall>j < r - Suc i. \<not> prefix pat (drop j cs)"
      by simp_all
    from IH(1) have eq: "r - i = Suc (r - Suc i)" by simp
    have "\<not> prefix pat (drop j (c # cs))" if "j < r - i" for j
    proof (cases j)
      case 0
      with False show ?thesis by simp
    next
      case (Suc j')
      with that eq IH(3) show ?thesis by simp
    qed
    with IH(1,2) eq show ?thesis by simp
  qed
qed

lemma indexOf_first:
  assumes "indexOf str pat = int r"
  shows "prefix pat (drop r str) \<and> (\<forall>j < r. \<not> prefix pat (drop j str))"
  using indexOf_at_first [of 0 str pat r] assms by (simp add: indexOf_def)

lemma mintpad_data_parts:
  assumes "length newSalt = 64"
  shows "mintpad_data newSalt = take 114 TEMPLATE_DATA @ newSalt @ drop 178 TEMPLATE_DATA"
  by (simp add: mintpad_data_def substring_def substring_from_def salt_indices
      length_TEMPLATE_DATA Let_def)

lemma createMintpadNFT_first_call:
  "\<exists>rest. calls_made (task_createMintpadNFT w) s =
     SendTransaction MINTPAD_CONTRACT_ADDRESS
       (mintpad_data (toString_hex (map (entropy w (tick s)) [0..<32]))) HIGH_GAS_PRICE # rest"
  by (simp add: calls_made_def task_createMintpadNFT_def prims run Let_def split: sum.splits)

text \<open>
  Claim C10. The payload \<open>task_createMintpadNFT\<close> sends is as long as the template and
  equal to it before and after the 64 characters that follow the first occurrence of the
  address (at index 74, so the characters 114 to 177); those 64 characters are the hex
  form of the 32 fresh random bytes.
\<close>

theorem mintpad_payload_is_template_with_new_salt:
  fixes w :: env and s :: st
  defines "newSalt \<equiv> toString_hex (map (entropy w (tick s)) [0..<32])"
  defines "data \<equiv> mintpad_data newSalt"
  shows "(\<exists>rest. calls_made (task_createMintpadNFT w) s =
            SendTransaction MINTPAD_CONTRACT_ADDRESS data HIGH_GAS_PRICE # rest)
    \<and> length newSalt = 64
    \<and> length data = length TEMPLATE_DATA
    \<and> prefix YOUR_ADDRESS_IN_DATA (drop 74 TEMPLATE_DATA)
    \<and> (\<forall>j < 74. \<not> prefix YOUR_ADDRESS_IN_DATA (drop j TEMPLATE_DATA))
    \<and> length YOUR_ADDRESS_IN_DATA = 40
    \<and> take 114 data = take 114 TEMPLATE_DATA
    \<and> take 64 (drop 114 data) = newSalt
    \<and> drop 178 data = drop 178 TEMPLATE_DATA"
proof -
  have len: "length newSalt = 64"
    by (simp add: newSalt_def length_toString_hex)
  have parts: "data = take 114 TEMPLATE_DATA @ newSalt @ drop 178 TEMPLATE_DATA"
    unfolding data_def using len by (rule mintpad_data_parts)
  have first: "prefix YOUR_ADDRESS_IN_DATA (drop 74 TEMPLATE_DATA)
      \<and> (\<forall>j < 74. \<not> prefix YOUR_ADDRESS_IN_DATA (drop j TEMPLATE_DATA))"
    using indexOf_first [of TEMPLATE_DATA YOUR_ADDRESS_IN_DATA 74] indexOf_address by simp
  have call: "\<exists>rest. calls_made (task_createMintpadNFT w) s =
            SendTransaction MINTPAD_CONTRACT_ADDRESS data HIGH_GAS_PRICE # rest"
    unfolding data_def newSalt_def by (rule createMintpadNFT_first_call)
  have "length data = length TEMPLATE_DATA"
    by (simp add: parts len length_TEMPLATE_DATA)
  moreover have "take 114 data = take 114 TEMPLATE_DATA"
    by (simp add: parts length_TEMPLATE_DATA)
  moreover have "take 64 (drop 114 data) = newSalt"
    by (simp add: parts len length_TEMPLATE_DATA)
  moreover have "drop 178 data = drop 178 TEMPLATE_DATA"
    by (simp add: parts len length_TEMPLATE_DATA)
  ultimately show ?thesis
    using len first call length_address by simp
qed

lemma mock_salt:
  "toString_hex (map (entropy mock_env (tick initial)) [0..<32]) =
   ''00070e151c232a31383f464d545b626970777e858c939aa1a8afb6bdc4cbd2d9''"
  by code_simp

theorem mintpad_payload_is_template_with_new_salt_witness:
  "(2::nat) < 74
   \<and> \<not> prefix YOUR_ADDRESS_IN_DATA (drop 2 TEMPLATE_DATA)
   \<and> length (mintpad_data ''00070e151c232a31383f464d545b626970777e858c939aa1a8afb6bdc4cbd2d9'') = 1483
   \<and> take 64 (drop 114
         (mintpad_data ''00070e151c232a31383f464d545b626970777e858c939aa1a8afb6bdc4cbd2d9'')) =
       ''00070e151c232a31383f464d545b626970777e858c939aa1a8afb6bdc4cbd2d9''"
  using mintpad_payload_is_template_with_new_salt [of mock_env initial]
  by (simp add: mock_salt length_TEMPLATE_DATA)

subsection \<open>Failed transactions and client errors\<close>


































lemma yields_return: "Q a \<Longrightarrow> yields f [] Q (return a)"
  by (simp add: yields_def return_def)


lemma yields_line: "f e = Some x \<Longrightarrow> yields f [x] (\<lambda>_. True) (emit e)"
  by (auto simp: yields_def emit_def)








lemma yields_weaken: "yields f xs Q m \<Longrightarrow> yields f xs (\<lambda>_. True) m"
  by (simp add: yields_def)
















subsection \<open>The next session\<close>

lemma MonthFromTime_range: "0 \<le> MonthFromTime t \<and> MonthFromTime t \<le> 11"
  by (simp add: MonthFromTime_def Let_def)

text \<open>Setting the date to the date plus one moves the local day number by one.\<close>

lemma MakeDay_next: "MakeDay (YearFromTime t) (MonthFromTime t) (DateFromTime t + 1) = Day t + 1"
proof -
  have "MonthFromTime t div 12 = 0" "MonthFromTime t mod 12 = MonthFromTime t"
    using MonthFromTime_range [of t] by simp_all
  then show ?thesis
    by (simp add: MakeDay_def DateFromTime_def DayWithinYear_def InLeapYear_def)
qed

lemma nextSessionTime_local: "nextSessionTime z t = UTC z (LocalTime z t + msPerDay)"
proof -
  have "MakeDate (Day u + 1) (TimeWithinDay u) = u + msPerDay" for u
    by (simp add: MakeDate_def Day_def TimeWithinDay_def algebra_simps)
  then show ?thesis
    by (simp add: nextSessionTime_def setDate_def getDate_def Let_def MakeDay_next)
qed

lemma nextSessionTime_fixed_zone: "nextSessionTime (fixed_zone c) t = t + msPerDay"
  by (simp add: nextSessionTime_local fixed_zone_def LocalTime_def UTC_def)

text \<open>
  Claim C3 does not hold for the code: \<open>setDate(getDate() + 1)\<close> keeps the local time of
  day. A session that starts at noon in New York on 9 March 2024 (17:00 UTC) gets its next
  session at noon on 10 March, which is 16:00 UTC: 23 hours after the start, not 24.
\<close>

theorem next_session_23_hours_after_start:
  "nextSessionTime new_york 1710003600000 = 1710003600000 + 23 * 3600000
   \<and> getDate new_york 1710003600000 = 9
   \<and> getDate new_york (1710003600000 + 23 * 3600000) = 10
   \<and> TimeWithinDay (LocalTime new_york 1710003600000) = 12 * 3600000
   \<and> TimeWithinDay (LocalTime new_york (1710003600000 + 23 * 3600000)) = 12 * 3600000"
proof -
  have "nextSessionTime new_york 1710003600000 = 1710003600000 + 23 * 3600000"
    by (simp add: nextSessionTime_local new_york_def LocalTime_def UTC_def msPerDay_def)
  moreover have "getDate new_york 1710003600000 = 9"
    by code_simp
  moreover have "getDate new_york (1710003600000 + 23 * 3600000) = 10"
    by code_simp
  moreover have "TimeWithinDay (LocalTime new_york 1710003600000) = 12 * 3600000"
    by (simp add: TimeWithinDay_def LocalTime_def new_york_def msPerDay_def)
  moreover have "TimeWithinDay (LocalTime new_york (1710003600000 + 23 * 3600000)) = 12 * 3600000"
    by (simp add: TimeWithinDay_def LocalTime_def new_york_def msPerDay_def)
  ultimately show ?thesis by simp
qed

subsection \<open>The wait between sessions\<close>

lemma runMainTasks_returns: "fst (runMainTasks w s) = Inr ()"
  using runMainTasks_skeleton [of schedule_view w s] by (simp add: schedule_view_quiet)

lemma runTokenDeploy_returns: "fst (runTokenDeploy w s) = Inr ()"
  using runTokenDeploy_skeleton [of schedule_view w s] by (simp add: schedule_view_quiet)

lemma daily_session_log:
  "daily_session W k log =
     (Inr (),
      log @ [StartingSession (session_start W k),
             Sessions (trace (snd (runMainTasks (main_env W k) initial)))
                      (trace (snd (runTokenDeploy (token_env W k) initial))),
             SessionComplete,
             NextSessionAt (nextSessionTime (zone W) (session_start W k)),
             WaitingApproximately
               (waitTime (zone W) (session_start W k) (session_end W k) div 3600000)
               (js_rem (waitTime (zone W) (session_start W k) (session_end W k)) 3600000 div 60000),
             MasterSleep (waitTime (zone W) (session_start W k) (session_end W k))])"
  by (simp add: daily_session_def Let_def Promise_all_def runMainTasks_returns
      runTokenDeploy_returns)

text \<open>
  Claim C4, as amended. The delay the master scheduler sleeps for is the difference
  \<open>nextSessionTime - now\<close> itself, with no lower bound: it is non-negative, and equal
  to \<open>max 0 (nextSessionTime - now)\<close>, exactly when the session has ended by the next
  session time; in a zone with a fixed offset it is negative exactly when the session
  took more than a day.
\<close>

theorem wait_is_next_session_minus_now:
  "last (snd (daily_session W k log)) =
     MasterSleep (nextSessionTime (zone W) (session_start W k) - session_end W k)
   \<and> waitTime z start now = nextSessionTime z start - now
   \<and> (0 \<le> waitTime z start now \<longleftrightarrow> now \<le> nextSessionTime z start)
   \<and> (waitTime z start now = max 0 (nextSessionTime z start - now)
        \<longleftrightarrow> now \<le> nextSessionTime z start)
   \<and> (waitTime (fixed_zone c) start now < 0 \<longleftrightarrow> msPerDay < now - start)"
proof -
  have "last (snd (daily_session W k log)) =
      MasterSleep (nextSessionTime (zone W) (session_start W k) - session_end W k)"
    by (simp add: daily_session_log waitTime_def)
  moreover have "waitTime (fixed_zone c) start now < 0 \<longleftrightarrow> msPerDay < now - start"
    by (auto simp: waitTime_def nextSessionTime_fixed_zone)
  moreover have "waitTime z start now = max 0 (nextSessionTime z start - now)
      \<longleftrightarrow> now \<le> nextSessionTime z start"
    by (auto simp: waitTime_def max_def)
  ultimately show ?thesis
    by (simp add: waitTime_def)
qed

text \<open>
  Claim C4 as stated fails: after a session of two days the scheduler sleeps for minus
  one day, where \<open>max 0 (nextSessionTime - now)\<close> is zero.
\<close>

theorem overrun_session_sleeps_negative:
  "last (snd (daily_session overrun_world 0 [])) = MasterSleep (- 86400000)
   \<and> max 0 (nextSessionTime (zone overrun_world) (session_start overrun_world 0)
             - session_end overrun_world 0) = 0"
  by (simp add: daily_session_log waitTime_def overrun_world_def nextSessionTime_fixed_zone
      msPerDay_def)

subsection \<open>The master loop\<close>

lemma session_starts_append: "session_starts (xs @ ys) = session_starts xs @ session_starts ys"
  by (induction xs rule: session_starts.induct) simp_all

lemma daily_session_events: "daily_session W k log = (Inr (), log @ session_events W k)"
  by (simp add: daily_session_log session_events_def)

text \<open>The two views of the loop agree, whatever the body is.\<close>

lemma while_true_for_Rejected:
  "while_true_for n body k log = Rejected e l \<Longrightarrow> while_true body k log = Some (e, l)"
proof (induction n arbitrary: k log)
  case 0
  then show ?case by simp
next
  case (Suc n)
  show ?case
  proof (cases "body k log")
    case (Pair r log')
    show ?thesis
    proof (cases r)
      case (Inl e')
      with Pair Suc.prems show ?thesis
        by (subst while_true.simps) simp
    next
      case (Inr u)
      with Pair Suc.prems have "while_true_for n body (Suc k) log' = Rejected e l"
        by simp
      then have "while_true body (Suc k) log' = Some (e, l)"
        by (rule Suc.IH)
      with Pair Inr show ?thesis
        by (subst while_true.simps) simp
    qed
  qed
qed

lemma while_true_Some:
  assumes "while_true body k log = Some r"
  shows "\<exists>n. while_true_for n body k log = Rejected (fst r) (snd r)"
proof (rule while_true.raw_induct
    [where P = "\<lambda>body k log r. \<exists>n. while_true_for n body k log = Rejected (fst r) (snd r)",
      OF _ assms])
  fix f body k log r
  assume IH: "\<And>body k log r. f body k log = Some r \<Longrightarrow>
      \<exists>n. while_true_for n body k log = Rejected (fst r) (snd r)"
    and step: "(case body k log of
                  (Inl e, log') \<Rightarrow> Some (e, log')
                | (Inr _, log') \<Rightarrow> f body (Suc k) log') = Some r"
  show "\<exists>n. while_true_for n body k log = Rejected (fst r) (snd r)"
  proof (cases "body k log")
    case (Pair x log')
    show ?thesis
    proof (cases x)
      case (Inl e)
      with Pair step have "while_true_for (Suc 0) body k log = Rejected (fst r) (snd r)"
        by auto
      then show ?thesis ..
    next
      case (Inr u)
      with Pair step have "f body (Suc k) log' = Some r"
        by simp
      then obtain n where "while_true_for n body (Suc k) log' = Rejected (fst r) (snd r)"
        using IH by blast
      with Pair Inr have "while_true_for (Suc n) body k log = Rejected (fst r) (snd r)"
        by simp
      then show ?thesis ..
    qed
  qed
qed

lemma while_true_for_cases:
  "(\<exists>e l. while_true_for n body k log = Rejected e l)
   \<or> (\<exists>l. while_true_for n body k log = Entering (k + n) l)"
proof (induction n arbitrary: k log)
  case 0
  show ?case by simp
next
  case (Suc n)
  show ?case
  proof (cases "body k log")
    case (Pair x log')
    show ?thesis
    proof (cases x)
      case (Inl e)
      with Pair show ?thesis by simp
    next
      case (Inr u)
      with Pair Suc.IH [of "Suc k" log'] show ?thesis by simp
    qed
  qed
qed

lemma while_true_None_iff:
  "while_true body k log = None \<longleftrightarrow> (\<forall>n. \<exists>l. while_true_for n body k log = Entering (k + n) l)"
proof
  assume none: "while_true body k log = None"
  show "\<forall>n. \<exists>l. while_true_for n body k log = Entering (k + n) l"
  proof
    fix n
    from while_true_for_cases [of n body k log]
    show "\<exists>l. while_true_for n body k log = Entering (k + n) l"
    proof
      assume "\<exists>e l. while_true_for n body k log = Rejected e l"
      then obtain e l where "while_true_for n body k log = Rejected e l" by blast
      then have "while_true body k log = Some (e, l)" by (rule while_true_for_Rejected)
      with none show ?thesis by simp
    qed
  qed
next
  assume going: "\<forall>n. \<exists>l. while_true_for n body k log = Entering (k + n) l"
  show "while_true body k log = None"
  proof (cases "while_true body k log")
    case None
    then show ?thesis .
  next
    case (Some r)
    then obtain n where "while_true_for n body k log = Rejected (fst r) (snd r)"
      using while_true_Some by blast
    with going show ?thesis by (metis loop_state.distinct(1))
  qed
qed

lemma sessions_for:
  "while_true_for n (daily_session W) k log =
     Entering (k + n) (log @ concat (map (session_events W) [k..<k + n]))"
proof (induction n arbitrary: k log)
  case 0
  show ?case by simp
next
  case (Suc n)
  have session: "daily_session W k log = (Inr (), log @ session_events W k)"
    by (rule daily_session_events)
  have "while_true_for (Suc n) (daily_session W) k log =
      while_true_for n (daily_session W) (Suc k) (log @ session_events W k)"
    using session by simp
  also have "\<dots> = Entering (Suc k + n)
      ((log @ session_events W k) @ concat (map (session_events W) [Suc k..<Suc k + n]))"
    by (rule Suc.IH)
  finally have run: "while_true_for (Suc n) (daily_session W) k log =
      Entering (Suc k + n)
        ((log @ session_events W k) @ concat (map (session_events W) [Suc k..<Suc k + n]))" .
  have "[k..<k + Suc n] = k # [Suc k..<Suc k + n]"
    by (simp add: upt_conv_Cons)
  then have "(log @ session_events W k) @ concat (map (session_events W) [Suc k..<Suc k + n]) =
      log @ concat (map (session_events W) [k..<k + Suc n])"
    by simp
  with run show ?case by simp
qed

lemma session_starts_events: "session_starts (session_events W k) = [session_start W k]"
  by (simp add: session_events_def)

lemma session_starts_sessions:
  "session_starts (concat (map (session_events W) ks)) = map (session_start W) ks"
  by (induction ks) (simp_all add: session_starts_append session_starts_events)

text \<open>
  Claim C8. Watched for any number \<open>n\<close> of iterations, the master loop has not ended:
  it is entering iteration \<open>n\<close>, and its log holds \<open>n\<close> sessions, each from its start
  through both sub-schedulers to the sleep, one after the other. So the loop never
  returns or throws (\<open>scheduleDailyRuns\<close> is \<open>None\<close>); for a loop with any body, \<open>None\<close>
  means just that it is still running after every number of iterations.
\<close>

theorem master_scheduler_never_stops:
  "scheduleDailyRuns_for n W =
     Entering n (BotStart (account W) # concat (map (session_events W) [0..<n]))
   \<and> session_starts (concat (map (session_events W) [0..<n])) = map (session_start W) [0..<n]
   \<and> daily_session W k log = (Inr (), log @ session_events W k)
   \<and> scheduleDailyRuns W = None
   \<and> (while_true body k log = None
        \<longleftrightarrow> (\<forall>m. \<exists>l. while_true_for m body k log = Entering (k + m) l))"
proof (intro conjI)
  show for_n: "scheduleDailyRuns_for n W =
      Entering n (BotStart (account W) # concat (map (session_events W) [0..<n]))" for n
    using sessions_for [of n W 0 "[BotStart (account W)]"]
    by (simp add: scheduleDailyRuns_for_def)
  show "session_starts (concat (map (session_events W) [0..<n])) = map (session_start W) [0..<n]"
    by (rule session_starts_sessions)
  show "daily_session W k log = (Inr (), log @ session_events W k)"
    by (rule daily_session_events)
  show "while_true body k log = None
      \<longleftrightarrow> (\<forall>m. \<exists>l. while_true_for m body k log = Entering (k + m) l)"
    by (rule while_true_None_iff)
  have "\<exists>l. while_true_for m (daily_session W) 0 [BotStart (account W)] = Entering (0 + m) l" for m
    using for_n [of m] by (simp add: scheduleDailyRuns_for_def)
  then show "scheduleDailyRuns W = None"
    unfolding scheduleDailyRuns_def by (simp only: while_true_None_iff) simp
qed

end
